theory Spec2Isabelle
  imports Main "HOL-Library.Word"
begin

section \<open>Levels, destinations and configuration (log.h)\<close>

text \<open>
  \<^verbatim>\<open>enum ENUM_LOG_LEVEL { LOG_LEVEL_DEBUG = 0, LOG_LEVEL_INFO, LOG_LEVEL_WARNING,
  LOG_LEVEL_ERROR, LOG_LEVEL_MAX }\<close>. The code compares levels through their integer
  values (\<^verbatim>\<open>level >= this->m_Level\<close>), which \<open>level_value\<close> gives.
\<close>

datatype ENUM_LOG_LEVEL =
  LOG_LEVEL_DEBUG | LOG_LEVEL_INFO | LOG_LEVEL_WARNING | LOG_LEVEL_ERROR | LOG_LEVEL_MAX

fun level_value :: "ENUM_LOG_LEVEL \<Rightarrow> nat" where
  "level_value LOG_LEVEL_DEBUG = 0"
| "level_value LOG_LEVEL_INFO = 1"
| "level_value LOG_LEVEL_WARNING = 2"
| "level_value LOG_LEVEL_ERROR = 3"
| "level_value LOG_LEVEL_MAX = 4"

text \<open>\<^verbatim>\<open>static_cast<ENUM_LOG_LEVEL>(num)\<close>, which \<^verbatim>\<open>Logger::config\<close> performs only when
  \<^verbatim>\<open>num < LOG_LEVEL_MAX\<close>.\<close>

definition level_of_num :: "64 word \<Rightarrow> ENUM_LOG_LEVEL" where
  "level_of_num num =
     (if num = 0 then LOG_LEVEL_DEBUG
      else if num = 1 then LOG_LEVEL_INFO
      else if num = 2 then LOG_LEVEL_WARNING
      else if num = 3 then LOG_LEVEL_ERROR
      else LOG_LEVEL_MAX)"

text \<open>\<^verbatim>\<open>s_LogLevelNames\<close> (log.cpp), indexed by a level below \<^verbatim>\<open>LOG_LEVEL_MAX\<close>.\<close>

fun s_LogLevelNames :: "ENUM_LOG_LEVEL \<Rightarrow> string" where
  "s_LogLevelNames LOG_LEVEL_DEBUG = ''DEBUG''"
| "s_LogLevelNames LOG_LEVEL_INFO = ''INFO''"
| "s_LogLevelNames LOG_LEVEL_WARNING = ''WARNING''"
| "s_LogLevelNames LOG_LEVEL_ERROR = ''ERROR''"
| "s_LogLevelNames LOG_LEVEL_MAX = []"

text \<open>
  \<^verbatim>\<open>enum ENUM_LOG_TYPE { TO_STDERR = 0, TO_FILE, TO_ROLLING_FILE, TO_MAX }\<close>. The
  constructor of \<^verbatim>\<open>LogSys\<close> casts an arbitrary \<^verbatim>\<open>unsigned long\<close> of the configuration
  into this type, so a value of the type is kept as its 32-bit underlying integer and the
  switch of \<^verbatim>\<open>createLoggerInterface\<close> has a default branch.
\<close>

type_synonym ENUM_LOG_TYPE = "32 word"

definition TO_STDERR :: ENUM_LOG_TYPE where "TO_STDERR = 0"
definition TO_FILE :: ENUM_LOG_TYPE where "TO_FILE = 1"
definition TO_ROLLING_FILE :: ENUM_LOG_TYPE where "TO_ROLLING_FILE = 2"
definition TO_MAX :: ENUM_LOG_TYPE where "TO_MAX = 3"

definition LOG_DEFAULT_FILE_PATH :: string where "LOG_DEFAULT_FILE_PATH = ''/tmp/log''"
definition LOG_DEFAULT_FILE_BASENAME :: string where "LOG_DEFAULT_FILE_BASENAME = ''log''"
definition LOG_DEFAULT_FILE_SUFFIX :: string where "LOG_DEFAULT_FILE_SUFFIX = []"
definition LOG_DEFAULT_LOGLEVEL :: ENUM_LOG_LEVEL where "LOG_DEFAULT_LOGLEVEL = LOG_LEVEL_INFO"
definition LOG_DEFAULT_FLUSH_NUM :: "64 word" where "LOG_DEFAULT_FLUSH_NUM = 1"

definition TEXT_LOG_DESTINATION :: string where "TEXT_LOG_DESTINATION = ''log_dest''"
definition TEXT_LOG_LEVEL :: string where "TEXT_LOG_LEVEL = ''log_level''"
definition TEXT_LOG_FILE_PATH :: string where "TEXT_LOG_FILE_PATH = ''file_path''"
definition TEXT_LOG_FILE_BASE_NAME :: string where "TEXT_LOG_FILE_BASE_NAME = ''file_base_name''"
definition TEXT_LOG_FILE_SUFFIX :: string where "TEXT_LOG_FILE_SUFFIX = ''file_suffix''"
definition TEXT_LOG_FLUSH_NUM :: string where "TEXT_LOG_FLUSH_NUM = ''num_logs_to_flush''"

text \<open>
  Modelled from the spec: the class \<^verbatim>\<open>LogConfig\<close> of \<^verbatim>\<open>log_config.h\<close>, which is not
  among the sources. The specification gives its contract: \<^verbatim>\<open>get_unsigned(key, &out)\<close>
  populates \<^verbatim>\<open>out\<close> and returns true when the key exists and parses as an unsigned
  integer, \<^verbatim>\<open>get_string(key, &out)\<close> when the key exists; otherwise \<^verbatim>\<open>out\<close> keeps its
  value. A configuration is the two typed lookups.
\<close>

record LogConfig =
  cfg_unsigned :: "string \<rightharpoonup> 64 word"
  cfg_string :: "string \<rightharpoonup> string"

definition LogConfig_empty :: LogConfig where
  "LogConfig_empty = \<lparr>cfg_unsigned = Map.empty, cfg_string = Map.empty\<rparr>"

definition getUnsigned :: "LogConfig \<Rightarrow> string \<Rightarrow> 64 word \<Rightarrow> bool \<times> 64 word" where
  "getUnsigned conf key out =
     (case cfg_unsigned conf key of Some v \<Rightarrow> (True, v) | None \<Rightarrow> (False, out))"

definition getString :: "LogConfig \<Rightarrow> string \<Rightarrow> string \<Rightarrow> bool \<times> string" where
  "getString conf key out =
     (case cfg_string conf key of Some v \<Rightarrow> (True, v) | None \<Rightarrow> (False, out))"

section \<open>The environment of a call and the observable world\<close>

text \<open>
  The fields of \<^verbatim>\<open>struct tm\<close> that the code reads. Each is a C \<^verbatim>\<open>int\<close>: a 32-bit
  word, read in two's complement by \<open>sint\<close>; \<open>+\<close> on it wraps around, as the compiled
  code does.
\<close>

record tm =
  tm_year :: "32 word"
  tm_mon :: "32 word"
  tm_mday :: "32 word"

text \<open>
  Exceptions. Every handler of the code is \<^verbatim>\<open>catch (std::exception&)\<close>; the exceptions
  thrown by the code and its libraries (\<^verbatim>\<open>runtime_error\<close>, boost's
  \<^verbatim>\<open>interprocess_exception\<close> and \<^verbatim>\<open>filesystem_error\<close>) all derive from
  \<^verbatim>\<open>std::exception\<close> and carry their \<^verbatim>\<open>what()\<close>. An exception of any other type
  would pass such a handler.
\<close>

datatype exn = std_exception string | non_std_exception

text \<open>
  What the operating system answers during one call: the local date that
  \<^verbatim>\<open>time\<close> and \<^verbatim>\<open>localtime_r\<close> give (one date for the whole call), whether the
  filesystem query throws, whether \<^verbatim>\<open>create_directories\<close>, opening, writing to and
  flushing a file succeed, how many buffered bytes the file buffer passes on to the file
  during an insertion, whether taking the mutex throws, what
  \<^verbatim>\<open>LogConfig::parseConfig\<close> reads from a configuration file (\<open>None\<close> when it
  fails), and the indeterminate content of a \<^verbatim>\<open>struct tm\<close> that no constructor
  initializes.
\<close>

record env =
  date_now :: tm
  exists_throws :: "string option"
  create_ok :: "string \<Rightarrow> bool"
  open_ok :: "string \<Rightarrow> bool"
  write_ok :: "string \<Rightarrow> bool"
  written_through :: "string \<Rightarrow> nat"
  flush_ok :: "string \<Rightarrow> bool"
  lock_throws :: "string option"
  parse_config :: "string \<Rightarrow> LogConfig option"
  uninitialized_tm :: tm

text \<open>
  A write to standard error is either a diagnostic of \<^verbatim>\<open>LOG_TO_STDERR\<close> (its text
  after the \<^verbatim>\<open>[<ctime>] [LOG SYS]\<close> prefix) or the bytes of a logged message.
\<close>

datatype stderr_write = Diag string | Bytes string

text \<open>
  The world the logger acts on: the paths that exist, the bytes each file holds on disk,
  and what has been written to standard error.
\<close>

record world =
  paths :: "string set"
  files :: "string \<rightharpoonup> string"
  stderr_out :: "stderr_write list"

definition LOG_TO_STDERR :: "string \<Rightarrow> world \<Rightarrow> world" where
  "LOG_TO_STDERR s w = w\<lparr>stderr_out := stderr_out w @ [Diag s]\<rparr>"

section \<open>The file stream\<close>

text \<open>
  \<^verbatim>\<open>std::fstream\<close> as the code uses it: whether a file is open and which, the bytes
  inserted and not yet flushed to the file, and the error bits.
\<close>

record fstream =
  is_open :: bool
  fname :: string
  buffer :: string
  badbit :: bool
  failbit :: bool

definition fstream_init :: fstream where
  "fstream_init = \<lparr>is_open = False, fname = [], buffer = [], badbit = False, failbit = False\<rparr>"

definition good :: "fstream \<Rightarrow> bool" where
  "good s = (\<not> badbit s \<and> \<not> failbit s)"

definition file_bytes :: "world \<Rightarrow> string \<Rightarrow> string" where
  "file_bytes w p = (case files w p of None \<Rightarrow> [] | Some c \<Rightarrow> c)"

text \<open>\<^verbatim>\<open>open(name, out | app)\<close>: fails on a stream that is open or when the system refuses;
  on success the file exists and the error bits are cleared.\<close>

definition fstream_open :: "env \<Rightarrow> string \<Rightarrow> fstream \<Rightarrow> world \<Rightarrow> fstream \<times> world" where
  "fstream_open e p s w =
     (if \<not> is_open s \<and> open_ok e p
      then (s\<lparr>is_open := True, fname := p, buffer := [], badbit := False, failbit := False\<rparr>,
            w\<lparr>paths := insert p (paths w), files := (files w)(p \<mapsto> file_bytes w p)\<rparr>)
      else (s\<lparr>failbit := True\<rparr>, w))"

text \<open>\<^verbatim>\<open>flush()\<close>: the buffered bytes reach the file, or \<^verbatim>\<open>badbit\<close> is set.\<close>

definition fstream_flush :: "env \<Rightarrow> fstream \<Rightarrow> world \<Rightarrow> fstream \<times> world" where
  "fstream_flush e s w =
     (if \<not> is_open s then (s, w)
      else if flush_ok e (fname s)
      then (s\<lparr>buffer := []\<rparr>,
            w\<lparr>files := (files w)(fname s \<mapsto> file_bytes w (fname s) @ buffer s)\<rparr>)
      else (s\<lparr>badbit := True\<rparr>, w))"

text \<open>\<^verbatim>\<open>close()\<close>: writes what is still buffered and releases the file; \<^verbatim>\<open>failbit\<close> when
  that fails or no file is open.\<close>

definition fstream_close :: "env \<Rightarrow> fstream \<Rightarrow> world \<Rightarrow> fstream \<times> world" where
  "fstream_close e s w =
     (if \<not> is_open s then (s\<lparr>failbit := True\<rparr>, w)
      else if flush_ok e (fname s)
      then (s\<lparr>is_open := False, buffer := []\<rparr>,
            w\<lparr>files := (files w)(fname s \<mapsto> file_bytes w (fname s) @ buffer s)\<rparr>)
      else (s\<lparr>is_open := False, buffer := [], failbit := True\<rparr>, w))"

text \<open>
  \<^verbatim>\<open>stream << msg\<close>: nothing is inserted into a stream that is not good (and
  \<^verbatim>\<open>failbit\<close> is set); a failed insertion sets \<^verbatim>\<open>badbit\<close>. The file buffer need not
  keep the bytes until the next flush: on a long insertion or a full buffer it passes
  bytes on to the file. The environment gives how many of the buffered bytes, oldest
  first, reach the file during the insertion.
\<close>

definition fstream_put :: "env \<Rightarrow> string \<Rightarrow> fstream \<Rightarrow> world \<Rightarrow> fstream \<times> world" where
  "fstream_put e msg s w =
     (if \<not> good s then (s\<lparr>failbit := True\<rparr>, w)
      else if write_ok e (fname s)
      then (let buffered = buffer s @ msg;
                k = min (written_through e (fname s)) (length buffered)
            in if k = 0 then (s\<lparr>buffer := buffered\<rparr>, w)
               else (s\<lparr>buffer := drop k buffered\<rparr>,
                     w\<lparr>files := (files w)(fname s \<mapsto> file_bytes w (fname s) @ take k buffered)\<rparr>))
      else (s\<lparr>badbit := True\<rparr>, w))"

section \<open>Logger, the base class\<close>

record Logger =
  m_Level :: ENUM_LOG_LEVEL
  m_MaxFlushNum :: "64 word"
  m_NotFlushedNum :: "64 word"

text \<open>\<^verbatim>\<open>Logger::config\<close>, on any record that extends \<open>Logger\<close>.\<close>

definition Logger_config ::
  "LogConfig \<Rightarrow> 'a Logger_scheme \<Rightarrow> world \<Rightarrow> bool \<times> 'a Logger_scheme \<times> world" where
  "Logger_config conf l w =
     (let (found, num) = getUnsigned conf TEXT_LOG_LEVEL 0;
          l1 = (if found \<and> num < 4 then l\<lparr>m_Level := level_of_num num\<rparr> else l);
          w1 = LOG_TO_STDERR (''Log level: '' @ s_LogLevelNames (m_Level l1)) w;
          (_, n) = getUnsigned conf TEXT_LOG_FLUSH_NUM (m_MaxFlushNum l1)
      in (True, l1\<lparr>m_MaxFlushNum := n\<rparr>, w1))"

text \<open>\<^verbatim>\<open>Logger::setLevel\<close>.\<close>

definition Logger_setLevel ::
  "ENUM_LOG_LEVEL \<Rightarrow> 'a Logger_scheme \<Rightarrow> world \<Rightarrow> 'a Logger_scheme \<times> world" where
  "Logger_setLevel level l w =
     (if level_value level \<ge> level_value LOG_LEVEL_MAX
      then (l, LOG_TO_STDERR ''Invalid log level!'' w)
      else if m_Level l \<noteq> level
      then (l\<lparr>m_Level := level\<rparr>,
            LOG_TO_STDERR (''Log level has been reset to: '' @ s_LogLevelNames level) w)
      else (l, w))"

section \<open>FileLogger\<close>

record FileLogger = Logger +
  m_FilePath :: string
  m_FileBaseName :: string
  m_FileSuffix :: string
  m_File :: fstream
  m_IsThreadSafe :: bool

text \<open>The two constructors.\<close>

definition FileLogger_default :: FileLogger where
  "FileLogger_default =
     \<lparr>m_Level = LOG_DEFAULT_LOGLEVEL, m_MaxFlushNum = LOG_DEFAULT_FLUSH_NUM,
      m_NotFlushedNum = 0,
      m_FilePath = LOG_DEFAULT_FILE_PATH, m_FileBaseName = LOG_DEFAULT_FILE_BASENAME,
      m_FileSuffix = LOG_DEFAULT_FILE_SUFFIX, m_File = fstream_init, m_IsThreadSafe = True\<rparr>"

definition FileLogger_new ::
  "string \<Rightarrow> string \<Rightarrow> string \<Rightarrow> ENUM_LOG_LEVEL \<Rightarrow> 64 word \<Rightarrow> bool \<Rightarrow> FileLogger" where
  "FileLogger_new path base_name suffix level flush_num thread_safe =
     \<lparr>m_Level = level, m_MaxFlushNum = flush_num, m_NotFlushedNum = 0,
      m_FilePath = path, m_FileBaseName = base_name, m_FileSuffix = suffix,
      m_File = fstream_init, m_IsThreadSafe = thread_safe\<rparr>"

text \<open>\<^verbatim>\<open>FileLogger::getFullFileName\<close>, on the three strings it reads.\<close>

definition compose_full_name :: "string \<Rightarrow> string \<Rightarrow> string \<Rightarrow> string" where
  "compose_full_name path base suffix =
     (let full_name = [];
          full_name =
            (if path \<noteq> []
             then (let full_name = full_name @ path
                   in if last path \<noteq> CHR ''/'' then full_name @ ''/'' else full_name)
             else full_name);
          full_name = full_name @ base
      in if suffix \<noteq> []
         then (if hd suffix = CHR ''.'' then full_name @ suffix
               else full_name @ ''.'' @ suffix)
         else full_name)"

definition getFullFileName :: "FileLogger \<Rightarrow> string" where
  "getFullFileName f = compose_full_name (m_FilePath f) (m_FileBaseName f) (m_FileSuffix f)"

text \<open>\<^verbatim>\<open>FileLogger::close\<close>.\<close>

definition FileLogger_close :: "env \<Rightarrow> FileLogger \<Rightarrow> world \<Rightarrow> bool \<times> FileLogger \<times> world" where
  "FileLogger_close e f w =
     (if is_open (m_File f)
      then (let (s1, w1) = fstream_flush e (m_File f) w;
                (s2, w2) = fstream_close e s1 w1
            in (True, f\<lparr>m_File := s2\<rparr>, w2))
      else (True, f, w))"

text \<open>
  \<^verbatim>\<open>FileLogger::open\<close>. The directory is created when the path does not exist; an
  exception of the filesystem library is caught and reported as failure. Then the current
  handle is closed and the file is opened for appending.
\<close>

definition FileLogger_open :: "env \<Rightarrow> FileLogger \<Rightarrow> world \<Rightarrow> bool \<times> FileLogger \<times> world" where
  "FileLogger_open e f w =
     (case exists_throws e of
        Some what \<Rightarrow> (False, f, LOG_TO_STDERR (''Exception: '' @ what) w)
      | None \<Rightarrow>
         (if m_FilePath f \<notin> paths w \<and> \<not> create_ok e (m_FilePath f)
          then (False, f,
                LOG_TO_STDERR (''Failed to created log directory <'' @ m_FilePath f @ ''>'') w)
          else
            (let w1 = (if m_FilePath f \<notin> paths w
                       then LOG_TO_STDERR (''Created log directory <'' @ m_FilePath f @ ''>'')
                              (w\<lparr>paths := insert (m_FilePath f) (paths w)\<rparr>)
                       else w);
                 (_, f2, w2) = FileLogger_close e f w1;
                 (s3, w3) = fstream_open e (getFullFileName f2) (m_File f2) w2;
                 f3 = f2\<lparr>m_File := s3\<rparr>
             in if \<not> good s3
                then (False, f3,
                      LOG_TO_STDERR (''Failed to open log file <'' @ getFullFileName f3 @ ''>'') w3)
                else (True, f3,
                      LOG_TO_STDERR (''Opened log file <'' @ getFullFileName f3 @ ''>'') w3))))"

text \<open>\<^verbatim>\<open>FileLogger::writeLog\<close>. The counter is an \<^verbatim>\<open>unsigned long\<close>: \<open>+ 1\<close> wraps.\<close>

definition writeLog :: "env \<Rightarrow> string \<Rightarrow> FileLogger \<Rightarrow> world \<Rightarrow> bool \<times> FileLogger \<times> world" where
  "writeLog e msg f w =
     (if \<not> is_open (m_File f) then (False, f, w)
      else
        (let (s1, w1) = fstream_put e msg (m_File f) w;
             n = m_NotFlushedNum f + 1
         in if n \<ge> m_MaxFlushNum f
            then (let (s2, w2) = fstream_flush e s1 w1
                  in (\<not> badbit s2, f\<lparr>m_NotFlushedNum := 0, m_File := s2\<rparr>, w2))
            else (\<not> badbit s1, f\<lparr>m_NotFlushedNum := n, m_File := s1\<rparr>, w1)))"

text \<open>
  \<^verbatim>\<open>scoped_lock<interprocess_recursive_mutex> lock(m_Mutex)\<close>: taking the mutex either
  succeeds or throws an \<^verbatim>\<open>interprocess_exception\<close>. The model is sequential, so a lock
  that is taken changes nothing.
\<close>

definition scoped_lock :: "env \<Rightarrow> exn option" where
  "scoped_lock e = (case lock_throws e of Some what \<Rightarrow> Some (std_exception what) | None \<Rightarrow> None)"

text \<open>
  The handler \<^verbatim>\<open>catch (std::exception& ex) { LOG_TO_STDERR("Exception: %s", ex.what());
  return false; }\<close> around a body that returns a value or throws: an exception that is
  not a \<^verbatim>\<open>std::exception\<close> is not caught.
\<close>

definition catch_std_exception ::
  "(exn + bool) \<times> 's \<times> world \<Rightarrow> (exn + bool) \<times> 's \<times> world" where
  "catch_std_exception r =
     (case r of
        (Inl (std_exception what), s, w) \<Rightarrow> (Inr False, s, LOG_TO_STDERR (''Exception: '' @ what) w)
      | (Inl non_std_exception, s, w) \<Rightarrow> (Inl non_std_exception, s, w)
      | (Inr b, s, w) \<Rightarrow> (Inr b, s, w))"

text \<open>\<^verbatim>\<open>FileLogger::logImpl\<close>: the result is the returned value, or the exception that
  leaves the function.\<close>

definition FileLogger_logImpl ::
  "env \<Rightarrow> string \<Rightarrow> FileLogger \<Rightarrow> world \<Rightarrow> (exn + bool) \<times> FileLogger \<times> world" where
  "FileLogger_logImpl e msg f w =
     catch_std_exception
       (if m_IsThreadSafe f
        then (case scoped_lock e of
                Some x \<Rightarrow> (Inl x, f, w)
              | None \<Rightarrow> (let (b, f1, w1) = writeLog e msg f w in (Inr b, f1, w1)))
        else (let (b, f1, w1) = writeLog e msg f w in (Inr b, f1, w1)))"

section \<open>StdErrLogger\<close>

definition StdErrLogger_default :: Logger where
  "StdErrLogger_default =
     \<lparr>m_Level = LOG_DEFAULT_LOGLEVEL, m_MaxFlushNum = LOG_DEFAULT_FLUSH_NUM,
      m_NotFlushedNum = 0\<rparr>"

text \<open>\<^verbatim>\<open>StdErrLogger::logImpl\<close>: \<^verbatim>\<open>fprintf(stderr, "%s", msg.c_str())\<close>.\<close>

definition StdErrLogger_logImpl ::
  "string \<Rightarrow> Logger \<Rightarrow> world \<Rightarrow> (exn + bool) \<times> Logger \<times> world" where
  "StdErrLogger_logImpl msg l w = (Inr True, l, w\<lparr>stderr_out := stderr_out w @ [Bytes msg]\<rparr>)"

section \<open>RollingFileLogger\<close>

text \<open>
  The fields \<^verbatim>\<open>m_FilePath\<close>, \<^verbatim>\<open>m_FileBaseName\<close> and \<^verbatim>\<open>m_FileSuffix\<close> of
  \<^verbatim>\<open>RollingFileLogger\<close> carry the suffix \<open>_R\<close> here, since \<open>FileLogger\<close> has fields
  of the same names. \<^verbatim>\<open>m_pFileLogger\<close> is a shared pointer: \<open>None\<close> is the null pointer.
\<close>

record RollingFileLogger = Logger +
  m_FilePath_R :: string
  m_FileBaseName_R :: string
  m_FileSuffix_R :: string
  m_pFileLogger :: "FileLogger option"
  m_LastCreatedTime :: tm

definition RollingFileLogger_default :: "tm \<Rightarrow> RollingFileLogger" where
  "RollingFileLogger_default uninit =
     \<lparr>m_Level = LOG_DEFAULT_LOGLEVEL, m_MaxFlushNum = LOG_DEFAULT_FLUSH_NUM,
      m_NotFlushedNum = 0,
      m_FilePath_R = LOG_DEFAULT_FILE_PATH, m_FileBaseName_R = LOG_DEFAULT_FILE_BASENAME,
      m_FileSuffix_R = LOG_DEFAULT_FILE_SUFFIX, m_pFileLogger = None,
      m_LastCreatedTime = uninit\<rparr>"

subsection \<open>The string stream of \<^verbatim>\<open>getFileNameByDate\<close>\<close>

text \<open>
  \<^verbatim>\<open>std::ostringstream\<close>: the characters written, the field width (which every
  formatted insertion resets to 0) and the fill character (which stays). An insertion
  shorter than the width is filled on the left.
\<close>

record ostringstream =
  os_str :: string
  os_width :: nat
  os_fill :: char

definition ostringstream_init :: ostringstream where
  "ostringstream_init = \<lparr>os_str = [], os_width = 0, os_fill = CHR '' ''\<rparr>"

definition put_formatted :: "string \<Rightarrow> ostringstream \<Rightarrow> ostringstream" where
  "put_formatted s os =
     os\<lparr>os_str := os_str os @ replicate (os_width os - length s) (os_fill os) @ s,
        os_width := 0\<rparr>"

definition setw :: "nat \<Rightarrow> ostringstream \<Rightarrow> ostringstream" where
  "setw n os = os\<lparr>os_width := n\<rparr>"

definition setfill :: "char \<Rightarrow> ostringstream \<Rightarrow> ostringstream" where
  "setfill c os = os\<lparr>os_fill := c\<rparr>"

definition digit_char :: "nat \<Rightarrow> char" where
  "digit_char d = ''0123456789'' ! d"

fun dec_digits :: "nat \<Rightarrow> string" where
  "dec_digits n =
     (if n < 10 then [digit_char n] else dec_digits (n div 10) @ [digit_char (n mod 10)])"

declare dec_digits.simps [simp del]

text \<open>The decimal text of an integer, as \<^verbatim>\<open>operator<<\<close> renders it; \<open>put_int\<close>
  inserts a C \<^verbatim>\<open>int\<close>.\<close>

definition int_text :: "int \<Rightarrow> string" where
  "int_text i = (if i < 0 then CHR ''-'' # dec_digits (nat (- i)) else dec_digits (nat i))"

definition put_string :: "string \<Rightarrow> ostringstream \<Rightarrow> ostringstream" where
  "put_string s os = put_formatted s os"

definition put_char :: "char \<Rightarrow> ostringstream \<Rightarrow> ostringstream" where
  "put_char c os = put_formatted [c] os"

definition put_int :: "32 word \<Rightarrow> ostringstream \<Rightarrow> ostringstream" where
  "put_int i os = put_formatted (int_text (sint i)) os"

text \<open>\<^verbatim>\<open>RollingFileLogger::getFileNameByDate\<close>, on the base name it reads.\<close>

definition file_name_by_date :: "string \<Rightarrow> tm \<Rightarrow> string" where
  "file_name_by_date base date =
     (let filename = ostringstream_init;
          filename = put_string base filename;
          filename = put_char CHR ''-'' filename;
          filename = put_int (tm_year date + 1900) filename;
          filename = put_char CHR ''-'' filename;
          filename = setw 2 filename;
          filename = setfill CHR ''0'' filename;
          filename = put_int (tm_mon date + 1) filename;
          filename = put_char CHR ''-'' filename;
          filename = setw 2 filename;
          filename = setfill CHR ''0'' filename;
          filename = put_int (tm_mday date) filename
      in os_str filename)"

definition getFileNameByDate :: "RollingFileLogger \<Rightarrow> tm \<Rightarrow> string" where
  "getFileNameByDate r date = file_name_by_date (m_FileBaseName_R r) date"

text \<open>\<^verbatim>\<open>RollingFileLogger::getCurrentDate\<close>.\<close>

definition getCurrentDate :: "env \<Rightarrow> tm" where
  "getCurrentDate e = date_now e"

subsection \<open>open, close, rotateFile, logImpl\<close>

text \<open>
  \<^verbatim>\<open>RollingFileLogger::open\<close>. Assigning the new \<^verbatim>\<open>FileLogger\<close> to the shared pointer
  destroys the one it held, whose destructor calls \<^verbatim>\<open>close()\<close>.
\<close>

definition RollingFileLogger_open ::
  "env \<Rightarrow> RollingFileLogger \<Rightarrow> world \<Rightarrow> bool \<times> RollingFileLogger \<times> world" where
  "RollingFileLogger_open e r w =
     (let r1 = r\<lparr>m_LastCreatedTime := getCurrentDate e\<rparr>;
          file_name = getFileNameByDate r1 (m_LastCreatedTime r1);
          fresh = FileLogger_new (m_FilePath_R r1) file_name (m_FileSuffix_R r1)
                    (m_Level r1) (m_MaxFlushNum r1) False;
          w1 = (case m_pFileLogger r1 of
                  None \<Rightarrow> w
                | Some old \<Rightarrow> snd (snd (FileLogger_close e old w)));
          (ok, f2, w2) = FileLogger_open e fresh w1
      in (ok, r1\<lparr>m_pFileLogger := Some f2\<rparr>, w2))"

definition RollingFileLogger_close ::
  "env \<Rightarrow> RollingFileLogger \<Rightarrow> world \<Rightarrow> bool \<times> RollingFileLogger \<times> world" where
  "RollingFileLogger_close e r w =
     (case m_pFileLogger r of
        Some f \<Rightarrow> (let (_, f1, w1) = FileLogger_close e f w
                   in (True, r\<lparr>m_pFileLogger := Some f1\<rparr>, w1))
      | None \<Rightarrow> (True, r, w))"

definition rotateFile :: "env \<Rightarrow> RollingFileLogger \<Rightarrow> world \<Rightarrow> RollingFileLogger \<times> world" where
  "rotateFile e r w =
     (let (_, r1, w1) = RollingFileLogger_close e r w;
          (_, r2, w2) = RollingFileLogger_open e r1 w1
      in (r2, w2))"

text \<open>\<^verbatim>\<open>RollingFileLogger::logImpl\<close>.\<close>

definition RollingFileLogger_logImpl ::
  "env \<Rightarrow> string \<Rightarrow> RollingFileLogger \<Rightarrow> world \<Rightarrow> (exn + bool) \<times> RollingFileLogger \<times> world" where
  "RollingFileLogger_logImpl e msg r w =
     catch_std_exception
       (case scoped_lock e of
          Some x \<Rightarrow> (Inl x, r, w)
        | None \<Rightarrow>
           (let date_now = getCurrentDate e;
                (r1, w1) = (if tm_mday (m_LastCreatedTime r) \<noteq> tm_mday date_now
                            then rotateFile e r w else (r, w))
            in case m_pFileLogger r1 of
                 Some f \<Rightarrow> (let (res, f2, w2) = FileLogger_logImpl e msg f w1
                            in (res, r1\<lparr>m_pFileLogger := Some f2\<rparr>, w2))
               | None \<Rightarrow> (Inr False, r1, w1)))"

section \<open>The polymorphic Logger\<close>

text \<open>A pointer to a \<^verbatim>\<open>Logger\<close> holds an object of one of the three classes; the virtual
  functions dispatch on it.\<close>

datatype Logger_ptr =
  StdErr_obj Logger | File_obj FileLogger | Rolling_obj RollingFileLogger

text \<open>\<^verbatim>\<open>Logger::createLoggerInterface\<close>.\<close>

definition createLoggerInterface :: "tm \<Rightarrow> ENUM_LOG_TYPE \<Rightarrow> exn + Logger_ptr" where
  "createLoggerInterface uninit type =
     (if type = TO_STDERR then Inr (StdErr_obj StdErrLogger_default)
      else if type = TO_FILE then Inr (File_obj FileLogger_default)
      else if type = TO_ROLLING_FILE then Inr (Rolling_obj (RollingFileLogger_default uninit))
      else Inl (std_exception ''Wrong log type!''))"

fun getLevel :: "Logger_ptr \<Rightarrow> ENUM_LOG_LEVEL" where
  "getLevel (StdErr_obj l) = m_Level l"
| "getLevel (File_obj f) = m_Level f"
| "getLevel (Rolling_obj r) = m_Level r"

text \<open>The virtual \<^verbatim>\<open>logImpl\<close>.\<close>

fun logImpl :: "env \<Rightarrow> string \<Rightarrow> Logger_ptr \<Rightarrow> world \<Rightarrow> (exn + bool) \<times> Logger_ptr \<times> world" where
  "logImpl e msg (StdErr_obj l) w =
     (let (res, l1, w1) = StdErrLogger_logImpl msg l w in (res, StdErr_obj l1, w1))"
| "logImpl e msg (File_obj f) w =
     (let (res, f1, w1) = FileLogger_logImpl e msg f w in (res, File_obj f1, w1))"
| "logImpl e msg (Rolling_obj r) w =
     (let (res, r1, w1) = RollingFileLogger_logImpl e msg r w in (res, Rolling_obj r1, w1))"

text \<open>\<^verbatim>\<open>Logger::log\<close>, the \<open>emit\<close> of the specification.\<close>

definition Logger_log ::
  "env \<Rightarrow> string \<Rightarrow> ENUM_LOG_LEVEL \<Rightarrow> Logger_ptr \<Rightarrow> world \<Rightarrow> (exn + bool) \<times> Logger_ptr \<times> world" where
  "Logger_log e msg level p w =
     (if level_value level \<ge> level_value (getLevel p) then logImpl e msg p w
      else (Inr False, p, w))"

text \<open>The virtual \<^verbatim>\<open>config\<close>: \<^verbatim>\<open>StdErrLogger::config\<close>, \<^verbatim>\<open>FileLogger::config\<close> and
  \<^verbatim>\<open>RollingFileLogger::config\<close>.\<close>

definition FileLogger_config ::
  "LogConfig \<Rightarrow> FileLogger \<Rightarrow> world \<Rightarrow> bool \<times> FileLogger \<times> world" where
  "FileLogger_config conf f w =
     (let (_, f1, w1) = Logger_config conf f w;
          (_, path) = getString conf TEXT_LOG_FILE_PATH (m_FilePath f1);
          (_, base) = getString conf TEXT_LOG_FILE_BASE_NAME (m_FileBaseName f1);
          (_, suffix) = getString conf TEXT_LOG_FILE_SUFFIX (m_FileSuffix f1)
      in (True, f1\<lparr>m_FilePath := path, m_FileBaseName := base, m_FileSuffix := suffix\<rparr>, w1))"

definition RollingFileLogger_config ::
  "LogConfig \<Rightarrow> RollingFileLogger \<Rightarrow> world \<Rightarrow> bool \<times> RollingFileLogger \<times> world" where
  "RollingFileLogger_config conf r w =
     (let (_, r1, w1) = Logger_config conf r w;
          (_, path) = getString conf TEXT_LOG_FILE_PATH (m_FilePath_R r1);
          (_, base) = getString conf TEXT_LOG_FILE_BASE_NAME (m_FileBaseName_R r1);
          (_, suffix) = getString conf TEXT_LOG_FILE_SUFFIX (m_FileSuffix_R r1)
      in (True, r1\<lparr>m_FilePath_R := path, m_FileBaseName_R := base, m_FileSuffix_R := suffix\<rparr>,
          w1))"

fun config :: "LogConfig \<Rightarrow> Logger_ptr \<Rightarrow> world \<Rightarrow> bool \<times> Logger_ptr \<times> world" where
  "config conf (StdErr_obj l) w =
     (let (b, l1, w1) = Logger_config conf l w in (b, StdErr_obj l1, w1))"
| "config conf (File_obj f) w =
     (let (b, f1, w1) = FileLogger_config conf f w in (b, File_obj f1, w1))"
| "config conf (Rolling_obj r) w =
     (let (b, r1, w1) = RollingFileLogger_config conf r w in (b, Rolling_obj r1, w1))"

text \<open>The virtual \<^verbatim>\<open>open\<close> and \<^verbatim>\<open>close\<close>; those of \<^verbatim>\<open>StdErrLogger\<close> only return true.\<close>

fun open_logger :: "env \<Rightarrow> Logger_ptr \<Rightarrow> world \<Rightarrow> bool \<times> Logger_ptr \<times> world" where
  "open_logger e (StdErr_obj l) w = (True, StdErr_obj l, w)"
| "open_logger e (File_obj f) w =
     (let (b, f1, w1) = FileLogger_open e f w in (b, File_obj f1, w1))"
| "open_logger e (Rolling_obj r) w =
     (let (b, r1, w1) = RollingFileLogger_open e r w in (b, Rolling_obj r1, w1))"

fun close_logger :: "env \<Rightarrow> Logger_ptr \<Rightarrow> world \<Rightarrow> bool \<times> Logger_ptr \<times> world" where
  "close_logger e (StdErr_obj l) w = (True, StdErr_obj l, w)"
| "close_logger e (File_obj f) w =
     (let (b, f1, w1) = FileLogger_close e f w in (b, File_obj f1, w1))"
| "close_logger e (Rolling_obj r) w =
     (let (b, r1, w1) = RollingFileLogger_close e r w in (b, Rolling_obj r1, w1))"

text \<open>The destructors \<^verbatim>\<open>~StdErrLogger\<close>, \<^verbatim>\<open>~FileLogger\<close> and \<^verbatim>\<open>~RollingFileLogger\<close> call
  \<^verbatim>\<open>close()\<close>; that of \<^verbatim>\<open>RollingFileLogger\<close> then releases the inner \<^verbatim>\<open>FileLogger\<close>,
  which is closed by then.\<close>

definition destroy_logger :: "env \<Rightarrow> Logger_ptr \<Rightarrow> world \<Rightarrow> world" where
  "destroy_logger e p w = snd (snd (close_logger e p w))"

section \<open>LogSys, the singleton\<close>

record LogSys =
  m_LogConfig :: LogConfig
  m_pLogger :: "Logger_ptr option"

text \<open>
  The constructor \<^verbatim>\<open>LogSys::LogSys(config_file)\<close>: the object, or the
  \<^verbatim>\<open>runtime_error\<close> it throws. When it throws after the logger was created, the
  logger is destroyed with the half-built object.
\<close>

definition LogSys_new :: "env \<Rightarrow> string \<Rightarrow> world \<Rightarrow> (exn + LogSys) \<times> world" where
  "LogSys_new e config_file w =
     (let (parsed, w1) =
            (if config_file = []
             then (Some LogConfig_empty,
                   LOG_TO_STDERR ''No log cofig file specified, log to stderr!'' w)
             else (parse_config e config_file,
                   LOG_TO_STDERR (''Opening file <'' @ config_file @ ''> to get log config...'') w))
      in case parsed of
           None \<Rightarrow>
             (Inl (std_exception ''Errors happened when read the log config file!''), w1)
         | Some conf \<Rightarrow>
             (let (_, desti) = getUnsigned conf TEXT_LOG_DESTINATION (ucast TO_STDERR)
              in case createLoggerInterface (uninitialized_tm e) (ucast desti) of
                   Inl x \<Rightarrow> (Inl x, w1)
                 | Inr p \<Rightarrow>
                     (let (_, p2, w2) = config conf p w1;
                          (ok, p3, w3) = open_logger e p2 w2
                      in if \<not> ok
                         then (Inl (std_exception ''Failed to open log''), destroy_logger e p3 w3)
                         else (Inr \<lparr>m_LogConfig = conf, m_pLogger = Some p3\<rparr>,
                               LOG_TO_STDERR ''Log system initialized OK!'' w3))))"

text \<open>
  \<^verbatim>\<open>LogSys::initialize\<close>, on the static \<^verbatim>\<open>s_pLogSys\<close> (\<open>None\<close> is the null pointer).
  The constructor runs before the assignment, so an exception leaves \<^verbatim>\<open>s_pLogSys\<close>
  as it was; after the assignment the pointer is not null, so the inner
  \<^verbatim>\<open>NULL == s_pLogSys\<close> test is never true.
\<close>

definition initialize ::
  "env \<Rightarrow> string \<Rightarrow> LogSys option \<Rightarrow> world \<Rightarrow> (exn + bool) \<times> LogSys option \<times> world" where
  "initialize e config_file s_pLogSys w =
     catch_std_exception
       (case s_pLogSys of
          None \<Rightarrow>
            (case LogSys_new e config_file w of
               (Inl x, w1) \<Rightarrow> (Inl x, None, w1)
             | (Inr sys, w1) \<Rightarrow> (Inr True, Some sys, w1))
        | Some sys \<Rightarrow> (Inr True, Some sys, w))"

definition LOG_SYS_INIT ::
  "env \<Rightarrow> string \<Rightarrow> LogSys option \<Rightarrow> world \<Rightarrow> (exn + bool) \<times> LogSys option \<times> world" where
  "LOG_SYS_INIT e config_file s_pLogSys w = initialize e config_file s_pLogSys w"

text \<open>\<^verbatim>\<open>LogSys::log\<close> returns nothing; an exception of the logger would leave it.\<close>

definition LogSys_log ::
  "env \<Rightarrow> string \<Rightarrow> ENUM_LOG_LEVEL \<Rightarrow> LogSys \<Rightarrow> world \<Rightarrow> exn option \<times> LogSys \<times> world" where
  "LogSys_log e msg level sys w =
     (case m_pLogger sys of
        Some p \<Rightarrow>
          (let (res, p1, w1) = Logger_log e msg level p w
           in ((case res of Inl x \<Rightarrow> Some x | Inr _ \<Rightarrow> None), sys\<lparr>m_pLogger := Some p1\<rparr>, w1))
      | None \<Rightarrow> (None, sys, w))"

text \<open>\<^verbatim>\<open>LOG_OUT\<close>, the free function the program logs through.\<close>

definition LOG_OUT ::
  "env \<Rightarrow> string \<Rightarrow> ENUM_LOG_LEVEL \<Rightarrow> LogSys option \<Rightarrow> world \<Rightarrow> exn option \<times> LogSys option \<times> world" where
  "LOG_OUT e msg level s_pLogSys w =
     (case s_pLogSys of
        Some sys \<Rightarrow> (let (x, sys1, w1) = LogSys_log e msg level sys w in (x, Some sys1, w1))
      | None \<Rightarrow> (None, None, w))"

section \<open>Notions of the specification\<close>

text \<open>
  The file name the specification gives for a day: \<open>zpad4\<close> and \<open>zpad2\<close> pad the
  decimal digits of a number with zeros on the left to width 4 and 2.
\<close>

definition zpad :: "nat \<Rightarrow> nat \<Rightarrow> string" where
  "zpad width n = replicate (width - length (dec_digits n)) CHR ''0'' @ dec_digits n"

definition spec_rolling_name :: "string \<Rightarrow> nat \<Rightarrow> nat \<Rightarrow> nat \<Rightarrow> string" where
  "spec_rolling_name base year month day =
     base @ ''-'' @ zpad 4 year @ ''-'' @ zpad 2 month @ ''-'' @ zpad 2 day"

text \<open>
  The states of the Rolling sink: it is \<open>Open\<close> when it holds an inner
  \<^verbatim>\<open>FileLogger\<close> whose file is open, and \<open>Closed\<close> otherwise.
\<close>

definition Rolling_is_open :: "RollingFileLogger \<Rightarrow> bool" where
  "Rolling_is_open r = (case m_pFileLogger r of None \<Rightarrow> False | Some f \<Rightarrow> is_open (m_File f))"

text \<open>What \<^verbatim>\<open>open()\<close> returns inside \<^verbatim>\<open>rotateFile\<close> (which discards it): whether the
  rotation succeeds at open.\<close>

definition rotation_open_ok :: "env \<Rightarrow> RollingFileLogger \<Rightarrow> world \<Rightarrow> bool" where
  "rotation_open_ok e r w =
     (case RollingFileLogger_close e r w of
        (_, r1, w1) \<Rightarrow> fst (RollingFileLogger_open e r1 w1))"

text \<open>
  The flush policy's \<open>pending\<close> and \<open>max_unflushed\<close>. The Rolling sink counts in its
  inner \<^verbatim>\<open>FileLogger\<close>, which takes \<^verbatim>\<open>m_MaxFlushNum\<close> from the Rolling sink when it
  is created; its own \<^verbatim>\<open>m_NotFlushedNum\<close> never changes.
\<close>

fun pending :: "Logger_ptr \<Rightarrow> 64 word" where
  "pending (StdErr_obj l) = m_NotFlushedNum l"
| "pending (File_obj f) = m_NotFlushedNum f"
| "pending (Rolling_obj r) =
     (case m_pFileLogger r of None \<Rightarrow> m_NotFlushedNum r | Some f \<Rightarrow> m_NotFlushedNum f)"

fun max_unflushed :: "Logger_ptr \<Rightarrow> 64 word" where
  "max_unflushed (StdErr_obj l) = m_MaxFlushNum l"
| "max_unflushed (File_obj f) = m_MaxFlushNum f"
| "max_unflushed (Rolling_obj r) = m_MaxFlushNum r"

text \<open>The invariant of the flush policy: every counter is below its threshold, and the
  inner \<^verbatim>\<open>FileLogger\<close> of a Rolling sink has the threshold of the Rolling sink.\<close>

fun flush_policy_ok :: "Logger_ptr \<Rightarrow> bool" where
  "flush_policy_ok (StdErr_obj l) = (m_NotFlushedNum l < m_MaxFlushNum l)"
| "flush_policy_ok (File_obj f) = (m_NotFlushedNum f < m_MaxFlushNum f)"
| "flush_policy_ok (Rolling_obj r) =
     (m_NotFlushedNum r < m_MaxFlushNum r \<and>
      (case m_pFileLogger r of
         None \<Rightarrow> True
       | Some f \<Rightarrow> m_MaxFlushNum f = m_MaxFlushNum r \<and> m_NotFlushedNum f < m_MaxFlushNum f))"

text \<open>A sequence of emits on one sink, each with the environment it runs in.\<close>

fun emits ::
  "(env \<times> string \<times> ENUM_LOG_LEVEL) list \<Rightarrow> Logger_ptr \<Rightarrow> world \<Rightarrow> Logger_ptr \<times> world" where
  "emits [] p w = (p, w)"
| "emits ((e, msg, level) # rest) p w =
     (let (_, p1, w1) = Logger_log e msg level p w in emits rest p1 w1)"

text \<open>
  The flush policy of the specification, as a step of the counter: a write increments
  it, and when it has reached the threshold it is reset to 0 (and the stream flushed).
\<close>

definition flush_step :: "64 word \<Rightarrow> 64 word \<Rightarrow> 64 word" where
  "flush_step threshold n = (if threshold \<le> n + 1 then 0 else n + 1)"

text \<open>The stream a sink writes to: the file of a File sink, the file of the inner
  \<^verbatim>\<open>FileLogger\<close> of a Rolling sink.\<close>

fun stream_of :: "Logger_ptr \<Rightarrow> fstream option" where
  "stream_of (StdErr_obj l) = None"
| "stream_of (File_obj f) = Some (m_File f)"
| "stream_of (Rolling_obj r) =
     (case m_pFileLogger r of None \<Rightarrow> None | Some f \<Rightarrow> Some (m_File f))"

text \<open>The day test of \<^verbatim>\<open>RollingFileLogger::logImpl\<close>, and the sink and world in which
  an emit that has passed the level gate and taken its mutex performs its write: for the
  Rolling sink, those after the rotation when the day test asks for one.\<close>

definition rotates :: "env \<Rightarrow> RollingFileLogger \<Rightarrow> bool" where
  "rotates e r = (tm_mday (m_LastCreatedTime r) \<noteq> tm_mday (date_now e))"

fun before_write :: "env \<Rightarrow> Logger_ptr \<Rightarrow> world \<Rightarrow> Logger_ptr \<times> world" where
  "before_write e (StdErr_obj l) w = (StdErr_obj l, w)"
| "before_write e (File_obj f) w = (File_obj f, w)"
| "before_write e (Rolling_obj r) w =
     (if rotates e r then (let (r1, w1) = rotateFile e r w in (Rolling_obj r1, w1))
      else (Rolling_obj r, w))"

text \<open>Whether the sink's mutex is taken (a File sink that is not thread safe takes
  none), and whether an emit writes to an open file: it passes the level gate, takes the
  mutex and finds the file open.\<close>

fun lock_taken :: "env \<Rightarrow> Logger_ptr \<Rightarrow> bool" where
  "lock_taken e (StdErr_obj l) = True"
| "lock_taken e (File_obj f) = (if m_IsThreadSafe f then lock_throws e = None else True)"
| "lock_taken e (Rolling_obj r) = (lock_throws e = None)"

definition writes :: "env \<Rightarrow> ENUM_LOG_LEVEL \<Rightarrow> Logger_ptr \<Rightarrow> world \<Rightarrow> bool" where
  "writes e level p w =
     (level_value (getLevel p) \<le> level_value level \<and> lock_taken e p \<and>
      (case stream_of (fst (before_write e p w)) of None \<Rightarrow> False | Some s \<Rightarrow> is_open s))"

section \<open>Concrete environments for the instances below\<close>

text \<open>What \<^verbatim>\<open>localtime_r\<close> stores for the local date year-month-day.\<close>

definition tm_of_date :: "32 word \<Rightarrow> 32 word \<Rightarrow> 32 word \<Rightarrow> tm" where
  "tm_of_date y m d = \<lparr>tm_year = y - 1900, tm_mon = m - 1, tm_mday = d\<rparr>"

text \<open>An environment on a given date in which every system call succeeds, the file
  buffer keeps every byte until the flush, and no configuration file can be parsed; and a
  world with no file.\<close>

definition env_all_ok :: "tm \<Rightarrow> env" where
  "env_all_ok d =
     \<lparr>date_now = d, exists_throws = None, create_ok = (\<lambda>_. True), open_ok = (\<lambda>_. True),
      write_ok = (\<lambda>_. True), written_through = (\<lambda>_. 0), flush_ok = (\<lambda>_. True),
      lock_throws = None,
      parse_config = (\<lambda>_. None), uninitialized_tm = \<lparr>tm_year = 0, tm_mon = 0, tm_mday = 0\<rparr>\<rparr>"

definition world_empty :: world where
  "world_empty = \<lparr>paths = {}, files = Map.empty, stderr_out = []\<rparr>"

section \<open>Auxiliary facts about the operations\<close>

lemma fstream_flush_open: "is_open (fst (fstream_flush e s w)) = is_open s"
  by (simp add: fstream_flush_def)

lemma fstream_put_open: "is_open (fst (fstream_put e msg s w)) = is_open s"
  by (simp add: fstream_put_def Let_def)

lemma FileLogger_close_fields:
  assumes "FileLogger_close e f w = (b, f', w')"
  shows "m_NotFlushedNum f' = m_NotFlushedNum f" and "m_MaxFlushNum f' = m_MaxFlushNum f"
    and "\<not> is_open (m_File f')"
  using assms
  by (auto simp: FileLogger_close_def fstream_flush_def fstream_close_def Let_def
      split: if_splits prod.splits)

lemma FileLogger_open_fields:
  assumes "FileLogger_open e f w = (ok, f', w')"
  shows "m_NotFlushedNum f' = m_NotFlushedNum f" and "m_MaxFlushNum f' = m_MaxFlushNum f"
    and "ok \<Longrightarrow> is_open (m_File f')"
    and "\<not> ok \<Longrightarrow> \<not> is_open (m_File f) \<Longrightarrow> \<not> is_open (m_File f')"
  using assms
  by (auto simp: FileLogger_open_def FileLogger_close_def fstream_flush_def fstream_close_def
      fstream_open_def good_def Let_def
      split: if_splits prod.splits option.splits)

lemma writeLog_fields:
  assumes "writeLog e msg f w = (b, f', w')"
  shows "m_MaxFlushNum f' = m_MaxFlushNum f"
    and "is_open (m_File f') = is_open (m_File f)"
    and "\<not> is_open (m_File f) \<Longrightarrow> \<not> b \<and> f' = f \<and> w' = w"
    and "m_NotFlushedNum f < m_MaxFlushNum f \<Longrightarrow> m_NotFlushedNum f' < m_MaxFlushNum f"
  using assms
  by (auto simp: writeLog_def fstream_flush_def fstream_put_def Let_def word_gt_0 not_le
      split: if_splits prod.splits)


lemma FileLogger_logImpl_fields:
  assumes "FileLogger_logImpl e msg f w = (res, f', w')"
  shows "\<exists>b. res = Inr b"
    and "m_MaxFlushNum f' = m_MaxFlushNum f"
    and "is_open (m_File f') = is_open (m_File f)"
    and "\<not> is_open (m_File f) \<Longrightarrow> res = Inr False"
    and "m_NotFlushedNum f < m_MaxFlushNum f \<Longrightarrow> m_NotFlushedNum f' < m_MaxFlushNum f"
proof -
  obtain b f1 w1 where wl: "writeLog e msg f w = (b, f1, w1)"
    by (cases "writeLog e msg f w") auto
  have cases: "(res, f', w') = (Inr b, f1, w1) \<or>
      (\<exists>what. (res, f', w') = (Inr False, f, LOG_TO_STDERR (''Exception: '' @ what) w))"
    using assms wl
    by (auto simp: FileLogger_logImpl_def catch_std_exception_def scoped_lock_def
        split: if_splits option.splits)
  show "\<exists>b. res = Inr b" using cases by auto
  show "m_MaxFlushNum f' = m_MaxFlushNum f" using cases writeLog_fields(1) [OF wl] by auto
  show "is_open (m_File f') = is_open (m_File f)" using cases writeLog_fields(2) [OF wl] by auto
  show "\<not> is_open (m_File f) \<Longrightarrow> res = Inr False" using cases writeLog_fields(3) [OF wl] by auto
  show "m_NotFlushedNum f < m_MaxFlushNum f \<Longrightarrow> m_NotFlushedNum f' < m_MaxFlushNum f"
    using cases writeLog_fields(4) [OF wl] by auto
qed

lemma RollingFileLogger_close_fields:
  assumes "RollingFileLogger_close e r w = (b, r', w')"
  shows "\<not> Rolling_is_open r'"
    and "m_MaxFlushNum r' = m_MaxFlushNum r" and "m_NotFlushedNum r' = m_NotFlushedNum r"
    and "m_LastCreatedTime r' = m_LastCreatedTime r"
  using assms FileLogger_close_fields(3)
  by (auto simp: RollingFileLogger_close_def Rolling_is_open_def
      split: option.splits prod.splits)

lemma RollingFileLogger_open_fields:
  assumes "RollingFileLogger_open e r w = (ok, r', w')"
  shows "Rolling_is_open r' = ok"
    and "m_MaxFlushNum r' = m_MaxFlushNum r" and "m_NotFlushedNum r' = m_NotFlushedNum r"
    and "m_Level r' = m_Level r"
    and "m_LastCreatedTime r' = date_now e"
    and "\<exists>f. m_pFileLogger r' = Some f \<and> m_MaxFlushNum f = m_MaxFlushNum r \<and> m_NotFlushedNum f = 0"
proof -
  let ?r1 = "r\<lparr>m_LastCreatedTime := getCurrentDate e\<rparr>"
  let ?fresh = "FileLogger_new (m_FilePath_R ?r1) (getFileNameByDate ?r1 (m_LastCreatedTime ?r1))
     (m_FileSuffix_R ?r1) (m_Level ?r1) (m_MaxFlushNum ?r1) False"
  let ?w1 = "case m_pFileLogger ?r1 of None \<Rightarrow> w | Some old \<Rightarrow> snd (snd (FileLogger_close e old w))"
  obtain ok2 f2 w2 where op: "FileLogger_open e ?fresh ?w1 = (ok2, f2, w2)"
    by (cases "FileLogger_open e ?fresh ?w1") auto
  have res: "ok = ok2" "r' = ?r1\<lparr>m_pFileLogger := Some f2\<rparr>"
    using assms op by (auto simp: RollingFileLogger_open_def Let_def)
  have fresh: "\<not> is_open (m_File ?fresh)" "m_NotFlushedNum ?fresh = 0"
      "m_MaxFlushNum ?fresh = m_MaxFlushNum r"
    by (simp_all add: FileLogger_new_def fstream_init_def)
  show "Rolling_is_open r' = ok"
    using res FileLogger_open_fields(3,4) [OF op] fresh(1)
    by (cases ok2) (auto simp: Rolling_is_open_def)
  show "m_MaxFlushNum r' = m_MaxFlushNum r" "m_NotFlushedNum r' = m_NotFlushedNum r"
    "m_Level r' = m_Level r" "m_LastCreatedTime r' = date_now e"
    using res by (simp_all add: getCurrentDate_def)
  show "\<exists>f. m_pFileLogger r' = Some f \<and> m_MaxFlushNum f = m_MaxFlushNum r \<and> m_NotFlushedNum f = 0"
    using res FileLogger_open_fields(1,2) [OF op] fresh(2,3) by simp
qed


lemma rotateFile_fields:
  assumes "rotateFile e r w = (r', w')"
  shows "Rolling_is_open r' = rotation_open_ok e r w"
    and "m_MaxFlushNum r' = m_MaxFlushNum r" and "m_NotFlushedNum r' = m_NotFlushedNum r"
    and "m_LastCreatedTime r' = date_now e"
    and "\<exists>f. m_pFileLogger r' = Some f \<and> m_MaxFlushNum f = m_MaxFlushNum r \<and> m_NotFlushedNum f = 0"
proof -
  obtain b1 r1 w1 where cl: "RollingFileLogger_close e r w = (b1, r1, w1)"
    by (cases "RollingFileLogger_close e r w") auto
  obtain ok where op: "RollingFileLogger_open e r1 w1 = (ok, r', w')"
    using assms cl by (cases "RollingFileLogger_open e r1 w1") (auto simp: rotateFile_def)
  show "Rolling_is_open r' = rotation_open_ok e r w"
    using RollingFileLogger_open_fields(1) [OF op] cl op by (simp add: rotation_open_ok_def)
  show "m_MaxFlushNum r' = m_MaxFlushNum r" "m_NotFlushedNum r' = m_NotFlushedNum r"
    using RollingFileLogger_open_fields(2,3) [OF op] RollingFileLogger_close_fields(2,3) [OF cl]
    by simp_all
  show "m_LastCreatedTime r' = date_now e"
    using RollingFileLogger_open_fields(5) [OF op] .
  show "\<exists>f. m_pFileLogger r' = Some f \<and> m_MaxFlushNum f = m_MaxFlushNum r \<and> m_NotFlushedNum f = 0"
    using RollingFileLogger_open_fields(6) [OF op] RollingFileLogger_close_fields(2) [OF cl]
    by simp
qed

lemma Rolling_logImpl_cases:
  assumes "RollingFileLogger_logImpl e msg r w = (res, r', w')"
  obtains (locked) what where "lock_throws e = Some what" "res = Inr False" "r' = r"
      "w' = LOG_TO_STDERR (''Exception: '' @ what) w"
  | (null) r1 w1 where "lock_throws e = None"
      "(r1, w1) = (if tm_mday (m_LastCreatedTime r) \<noteq> tm_mday (date_now e)
                   then rotateFile e r w else (r, w))"
      "m_pFileLogger r1 = None" "res = Inr False" "r' = r1" "w' = w1"
  | (inner) r1 w1 f f2 where "lock_throws e = None"
      "(r1, w1) = (if tm_mday (m_LastCreatedTime r) \<noteq> tm_mday (date_now e)
                   then rotateFile e r w else (r, w))"
      "m_pFileLogger r1 = Some f" "FileLogger_logImpl e msg f w1 = (res, f2, w')"
      "r' = r1\<lparr>m_pFileLogger := Some f2\<rparr>"
proof (cases "lock_throws e")
  case (Some what)
  then show ?thesis
    using assms locked
    by (simp add: RollingFileLogger_logImpl_def scoped_lock_def catch_std_exception_def)
next
  case None
  obtain r1 w1 where rot: "(r1, w1) = (if tm_mday (m_LastCreatedTime r) \<noteq> tm_mday (date_now e)
                   then rotateFile e r w else (r, w))"
    by (metis surj_pair)
  show ?thesis
  proof (cases "m_pFileLogger r1")
    case inner_none: None
    have "res = Inr False \<and> r' = r1 \<and> w' = w1"
      using assms None inner_none rot [symmetric]
      by (simp add: RollingFileLogger_logImpl_def scoped_lock_def catch_std_exception_def
          getCurrentDate_def Let_def)
    then show ?thesis using null [OF None rot inner_none] by simp
  next
    case (Some f)
    obtain res2 f2 w2 where li: "FileLogger_logImpl e msg f w1 = (res2, f2, w2)"
      by (cases "FileLogger_logImpl e msg f w1") auto
    obtain b where b: "res2 = Inr b" using FileLogger_logImpl_fields(1) [OF li] by auto
    have "res = res2 \<and> r' = r1\<lparr>m_pFileLogger := Some f2\<rparr> \<and> w' = w2"
      using assms None Some rot [symmetric] li b
      by (simp add: RollingFileLogger_logImpl_def scoped_lock_def catch_std_exception_def
          getCurrentDate_def Let_def)
    then show ?thesis using inner [OF None rot Some] li by simp
  qed
qed


lemma word_less_le_pred:
  fixes x y :: "64 word"
  assumes "x < y"
  shows "x \<le> y - 1"
proof -
  have "y \<noteq> 0" using assms by (metis word_gt_0 not_less word_le_0_iff less_imp_le order.strict_trans2)
  then have "unat (y - 1) = unat y - 1" by (rule unat_minus_one)
  moreover have "unat x < unat y" using assms by (simp add: word_less_nat_alt)
  ultimately show ?thesis by (simp add: word_le_nat_alt)
qed


lemma log_below_level:
  "level_value level < level_value (getLevel p) \<Longrightarrow>
     Logger_log e msg level p w = (Inr False, p, w)"
  by (simp add: Logger_log_def)

lemma Rolling_logImpl_flush_policy:
  assumes inv: "flush_policy_ok (Rolling_obj r)"
    and li: "RollingFileLogger_logImpl e msg r w = (res, r', w')"
  shows "flush_policy_ok (Rolling_obj r') \<and> m_MaxFlushNum r' = m_MaxFlushNum r"
  using li
proof (cases rule: Rolling_logImpl_cases)
  case (locked what)
  then show ?thesis using inv by simp
next
  case (null r1 w1)
  then show ?thesis
    using inv rotateFile_fields(2,3) [of e r w r1 w1]
    by (auto split: if_splits)
next
  case (inner r1 w1 f f2)
  have r1: "m_MaxFlushNum r1 = m_MaxFlushNum r \<and> m_NotFlushedNum r1 = m_NotFlushedNum r
      \<and> m_MaxFlushNum f = m_MaxFlushNum r \<and> m_NotFlushedNum f < m_MaxFlushNum f"
  proof (cases "tm_mday (m_LastCreatedTime r) \<noteq> tm_mday (date_now e)")
    case True
    then have rot: "rotateFile e r w = (r1, w1)" using inner(2) by simp
    have "0 < m_MaxFlushNum r" using inv by (auto simp: word_gt_0)
    then show ?thesis
      using rotateFile_fields(2,3,5) [OF rot] inner(3) by auto
  next
    case False
    then show ?thesis using inner(2,3) inv by auto
  qed
  show ?thesis
    using r1 inner(5) inv FileLogger_logImpl_fields(2,5) [OF inner(4)] by auto
qed

lemma log_flush_policy:
  assumes inv: "flush_policy_ok p" and lg: "Logger_log e msg level p w = (res, p', w')"
  shows "flush_policy_ok p' \<and> max_unflushed p' = max_unflushed p"
proof (cases "level_value level < level_value (getLevel p)")
  case True
  then show ?thesis using inv lg by (simp add: log_below_level)
next
  case False
  then have li: "logImpl e msg p w = (res, p', w')" using lg by (simp add: Logger_log_def)
  show ?thesis
  proof (cases p)
    case (StdErr_obj l)
    then show ?thesis using li inv by (auto simp: StdErrLogger_logImpl_def)
  next
    case (File_obj f)
    obtain f' where f': "FileLogger_logImpl e msg f w = (res, f', w')" "p' = File_obj f'"
      using li File_obj by (auto split: prod.splits)
    show ?thesis
      using FileLogger_logImpl_fields(2,5) [OF f'(1)] inv File_obj f'(2) by simp
  next
    case (Rolling_obj r)
    obtain r' where r': "RollingFileLogger_logImpl e msg r w = (res, r', w')" "p' = Rolling_obj r'"
      using li Rolling_obj by (auto split: prod.splits)
    show ?thesis
      using Rolling_logImpl_flush_policy [OF _ r'(1)] inv Rolling_obj r'(2) by auto
  qed
qed

lemma emits_flush_policy:
  "flush_policy_ok p \<Longrightarrow> emits steps p w = (p', w') \<Longrightarrow>
     flush_policy_ok p' \<and> max_unflushed p' = max_unflushed p"
proof (induction steps arbitrary: p w)
  case Nil
  then show ?case by simp
next
  case (Cons s steps)
  obtain e msg level where s: "s = (e, msg, level)" by (cases s) auto
  obtain res p1 w1 where lg: "Logger_log e msg level p w = (res, p1, w1)"
    by (cases "Logger_log e msg level p w") auto
  have "emits steps p1 w1 = (p', w')" using Cons.prems(2) s lg by simp
  then show ?case
    using Cons.IH [of p1 w1] log_flush_policy [OF Cons.prems(1) lg] by simp
qed

lemma flush_policy_bound: "flush_policy_ok p \<Longrightarrow> pending p \<le> max_unflushed p - 1"
  by (cases p) (auto intro: word_less_le_pred split: option.splits)

lemma FileLogger_logImpl_write:
  assumes "is_open (m_File f)" and "lock_throws e = None \<or> \<not> m_IsThreadSafe f"
    and "FileLogger_logImpl e msg f w = (res, f', w')"
  shows "m_NotFlushedNum f' = flush_step (m_MaxFlushNum f) (m_NotFlushedNum f)"
    and "(Some (m_File f'), w') =
           (case fstream_put e msg (m_File f) w of
              (s2, w2) \<Rightarrow>
                if m_MaxFlushNum f \<le> m_NotFlushedNum f + 1
                then (case fstream_flush e s2 w2 of (s3, w3) \<Rightarrow> (Some s3, w3))
                else (Some s2, w2))"
    and "res = Inr (\<not> badbit (m_File f'))"
  using assms
  by (auto simp: FileLogger_logImpl_def catch_std_exception_def scoped_lock_def writeLog_def
      flush_step_def Let_def split: if_splits prod.splits option.splits)

lemma open_flush_policy:
  assumes "1 \<le> max_unflushed p"
    and "(case p of StdErr_obj l \<Rightarrow> m_NotFlushedNum l | File_obj f \<Rightarrow> m_NotFlushedNum f
          | Rolling_obj r \<Rightarrow> m_NotFlushedNum r) = 0"
    and "open_logger e p w = (ok, p', w')"
  shows "flush_policy_ok p' \<and> max_unflushed p' = max_unflushed p"
proof -
  have pos: "0 < max_unflushed p"
    using assms(1) by (metis word_gt_0 word_le_0_iff zero_neq_one)
  show ?thesis
  proof (cases p)
    case (StdErr_obj l)
    then show ?thesis using assms(2,3) pos by auto
  next
    case (File_obj f)
    obtain f' where f': "FileLogger_open e f w = (ok, f', w')" "p' = File_obj f'"
      using assms(3) File_obj by (auto split: prod.splits)
    show ?thesis
      using FileLogger_open_fields(1,2) [OF f'(1)] f'(2) File_obj assms(2) pos by simp
  next
    case (Rolling_obj r)
    obtain r' where r': "RollingFileLogger_open e r w = (ok, r', w')" "p' = Rolling_obj r'"
      using assms(3) Rolling_obj by (auto split: prod.splits)
    show ?thesis
      using RollingFileLogger_open_fields(2,3,6) [OF r'(1)] r'(2) Rolling_obj assms(2) pos
      by auto
  qed
qed

lemma Logger_config_counter:
  "Logger_config conf l w = (b, l', w') \<Longrightarrow> m_NotFlushedNum l' = m_NotFlushedNum l"
  by (auto simp: Logger_config_def Let_def split: prod.splits if_splits)

lemma created_configured_counter:
  assumes "createLoggerInterface u type = Inr p0" and "config conf p0 w0 = (b, p, w)"
  shows "(case p of StdErr_obj l \<Rightarrow> m_NotFlushedNum l | File_obj f \<Rightarrow> m_NotFlushedNum f
          | Rolling_obj r \<Rightarrow> m_NotFlushedNum r) = 0"
proof -
  have p0: "(case p0 of StdErr_obj l \<Rightarrow> m_NotFlushedNum l | File_obj f \<Rightarrow> m_NotFlushedNum f
          | Rolling_obj r \<Rightarrow> m_NotFlushedNum r) = 0"
    using assms(1)
    by (auto simp: createLoggerInterface_def StdErrLogger_default_def FileLogger_default_def
        RollingFileLogger_default_def split: if_splits)
  show ?thesis
  proof (cases p0)
    case (StdErr_obj l)
    then show ?thesis
      using assms(2) p0 by (auto split: prod.splits dest: Logger_config_counter)
  next
    case (File_obj f)
    then show ?thesis
      using assms(2) p0
      by (auto simp: FileLogger_config_def Let_def split: prod.splits dest: Logger_config_counter)
  next
    case (Rolling_obj r)
    then show ?thesis
      using assms(2) p0
      by (auto simp: RollingFileLogger_config_def Let_def split: prod.splits
          dest: Logger_config_counter)
  qed
qed

lemma FileLogger_close_paths: "FileLogger_close e f w = (b, f', w') \<Longrightarrow> paths w' = paths w"
  by (auto simp: FileLogger_close_def fstream_flush_def fstream_close_def Let_def
      split: prod.splits if_splits)

lemma FileLogger_open_fails:
  assumes "(m_FilePath f \<notin> paths w \<and> \<not> create_ok e (m_FilePath f))
           \<or> (\<forall>p. \<not> open_ok e p) \<or> exists_throws e \<noteq> None"
  shows "\<not> fst (FileLogger_open e f w)"
  using assms
  by (auto simp: FileLogger_open_def fstream_open_def good_def Let_def
      split: option.splits prod.splits)

lemma rotation_open_fails:
  assumes "(m_FilePath_R r \<notin> paths w \<and> \<not> create_ok e (m_FilePath_R r))
           \<or> (\<forall>p. \<not> open_ok e p) \<or> exists_throws e \<noteq> None"
  shows "\<not> rotation_open_ok e r w"
proof -
  obtain b1 r1 w1 where cl: "RollingFileLogger_close e r w = (b1, r1, w1)"
    by (cases "RollingFileLogger_close e r w") auto
  have r1: "m_FilePath_R r1 = m_FilePath_R r" "paths w1 = paths w"
    using cl FileLogger_close_paths
    by (auto simp: RollingFileLogger_close_def split: option.splits prod.splits)
  let ?r2 = "r1\<lparr>m_LastCreatedTime := getCurrentDate e\<rparr>"
  let ?fresh = "FileLogger_new (m_FilePath_R ?r2) (getFileNameByDate ?r2 (m_LastCreatedTime ?r2))
     (m_FileSuffix_R ?r2) (m_Level ?r2) (m_MaxFlushNum ?r2) False"
  let ?w2 = "case m_pFileLogger ?r2 of None \<Rightarrow> w1 | Some old \<Rightarrow> snd (snd (FileLogger_close e old w1))"
  have "paths (snd (snd (FileLogger_close e old w1))) = paths w1" for old
    by (cases "FileLogger_close e old w1") (auto dest: FileLogger_close_paths)
  then have p2: "paths ?w2 = paths w"
    using r1(2) by (simp split: option.splits)
  have "m_FilePath ?fresh = m_FilePath_R r" using r1(1) by (simp add: FileLogger_new_def)
  then have "\<not> fst (FileLogger_open e ?fresh ?w2)"
    using assms p2 by (intro FileLogger_open_fails) simp
  then show ?thesis
    using cl by (auto simp: rotation_open_ok_def RollingFileLogger_open_def Let_def split: prod.splits)
qed


section \<open>File names\<close>

text \<open>
  C4. For a directory that is not empty and does not end in \<open>/\<close>, the full path of the
  File sink is the directory, a \<open>/\<close>, the base name, and then nothing for an empty
  suffix, the suffix itself when it starts with a dot, and a dot and the suffix otherwise.
  For an empty directory the path starts with the base name: nothing, and no \<open>/\<close>,
  precedes it.
\<close>

theorem full_file_name_composition:
  "(m_FilePath f \<noteq> [] \<and> last (m_FilePath f) \<noteq> CHR ''/'' \<longrightarrow>
      getFullFileName f =
        m_FilePath f @ ''/'' @ m_FileBaseName f @
          (if m_FileSuffix f = [] then []
           else if hd (m_FileSuffix f) = CHR ''.'' then m_FileSuffix f
           else ''.'' @ m_FileSuffix f))
   \<and> (m_FilePath f = [] \<longrightarrow>
      getFullFileName f =
        m_FileBaseName f @
          (if m_FileSuffix f = [] then []
           else if hd (m_FileSuffix f) = CHR ''.'' then m_FileSuffix f
           else ''.'' @ m_FileSuffix f))"
  by (simp add: getFullFileName_def compose_full_name_def)

theorem full_file_name_composition_witness:
  "getFullFileName (FileLogger_new ''/tmp/t'' ''app'' ''log'' LOG_LEVEL_INFO 2 True)
     = ''/tmp/t/app.log''
   \<and> getFullFileName (FileLogger_new [] ''app'' ''.txt'' LOG_LEVEL_INFO 2 True) = ''app.txt''"
  using
    full_file_name_composition [of "FileLogger_new ''/tmp/t'' ''app'' ''log'' LOG_LEVEL_INFO 2 True"]
    full_file_name_composition [of "FileLogger_new [] ''app'' ''.txt'' LOG_LEVEL_INFO 2 True"]
  by (simp add: FileLogger_new_def)

lemma dec_digits_nonempty: "1 \<le> length (dec_digits n)"
  by (subst dec_digits.simps) simp

lemma dec_digits_one: "n < 10 \<Longrightarrow> length (dec_digits n) = 1"
  by (subst dec_digits.simps) simp

lemma dec_digits_step:
  "10 \<le> n \<Longrightarrow> length (dec_digits n) = Suc (length (dec_digits (n div 10)))"
  by (subst dec_digits.simps) simp

lemma dec_digits_at_most_two:
  assumes "n < 100"
  shows "length (dec_digits n) \<le> 2"
proof (cases "n < 10")
  case True
  then show ?thesis by (simp add: dec_digits_one)
next
  case False
  then have "length (dec_digits n) = Suc (length (dec_digits (n div 10)))"
    by (intro dec_digits_step) simp
  moreover have "length (dec_digits (n div 10)) = 1"
    using assms by (intro dec_digits_one) simp
  ultimately show ?thesis by simp
qed

lemma dec_digits_four:
  assumes "1000 \<le> n" and "n < 10000"
  shows "length (dec_digits n) = 4"
proof -
  have n1: "10 \<le> n" using assms by simp
  have n2: "10 \<le> n div 10" using assms by simp
  have n3: "10 \<le> n div 10 div 10" using assms by simp
  have n4: "n div 10 div 10 div 10 < 10" using assms by simp
  show ?thesis
    using dec_digits_one [OF n4]
      dec_digits_step [OF n1] dec_digits_step [OF n2] dec_digits_step [OF n3]
    by linarith
qed

lemma length_zpad: "length (dec_digits n) \<le> width \<Longrightarrow> length (zpad width n) = width"
  by (simp add: zpad_def)

lemma sint_add_1900:
  fixes x :: "32 word"
  assumes "- 900 \<le> sint x" and "sint x \<le> 8099"
  shows "sint (x + 1900) = sint x + 1900"
proof -
  have "sint (x + 1900) = signed_take_bit 31 (sint x + sint (1900 :: 32 word))"
    by (simp add: sint_word_ariths)
  also have "\<dots> = signed_take_bit 31 (sint x + 1900)" by simp
  also have "\<dots> = sint x + 1900"
    using assms by (intro signed_take_bit_int_eq_self) simp_all
  finally show ?thesis .
qed

lemma sint_add_1:
  fixes x :: "32 word"
  assumes "0 \<le> sint x" and "sint x \<le> 11"
  shows "sint (x + 1) = sint x + 1"
proof -
  have "sint (x + 1) = signed_take_bit 31 (sint x + sint (1 :: 32 word))"
    by (simp add: sint_word_ariths)
  also have "\<dots> = signed_take_bit 31 (sint x + 1)" by simp
  also have "\<dots> = sint x + 1"
    using assms by (intro signed_take_bit_int_eq_self) simp_all
  finally show ?thesis .
qed

text \<open>
  C5. For every local date as \<^verbatim>\<open>localtime_r\<close> reports it (\<open>tm_mon\<close> from 0 to 11,
  \<open>tm_mday\<close> from 1 to 31) whose year \<open>tm_year + 1900\<close> has four digits, the per-day file
  name of the Rolling sink is the base name, \<open>-\<close>, \<open>zpad4\<close> of the year, \<open>-\<close>,
  \<open>zpad2\<close> of the month, \<open>-\<close>, \<open>zpad2\<close> of the day: the year is rendered as four
  digits, the month and the day as two.
\<close>

theorem rolling_file_name_by_date:
  assumes "1000 \<le> sint (tm_year date) + 1900" and "sint (tm_year date) + 1900 \<le> 9999"
    and "0 \<le> sint (tm_mon date)" and "sint (tm_mon date) \<le> 11"
    and "1 \<le> sint (tm_mday date)" and "sint (tm_mday date) \<le> 31"
  shows "getFileNameByDate r date =
           spec_rolling_name (m_FileBaseName_R r) (nat (sint (tm_year date) + 1900))
             (nat (sint (tm_mon date) + 1)) (nat (sint (tm_mday date)))
         \<and> length (zpad 4 (nat (sint (tm_year date) + 1900))) = 4
         \<and> length (zpad 2 (nat (sint (tm_mon date) + 1))) = 2
         \<and> length (zpad 2 (nat (sint (tm_mday date)))) = 2"
proof -
  let ?y = "nat (sint (tm_year date) + 1900)"
  let ?m = "nat (sint (tm_mon date) + 1)"
  let ?d = "nat (sint (tm_mday date))"
  have y: "sint (tm_year date + 1900) = sint (tm_year date) + 1900"
    using assms(1,2) by (intro sint_add_1900) simp_all
  have m: "sint (tm_mon date + 1) = sint (tm_mon date) + 1"
    using assms(3,4) by (rule sint_add_1)
  have ly: "length (dec_digits ?y) = 4"
    using assms(1,2) by (intro dec_digits_four) simp_all
  have lm: "length (dec_digits ?m) \<le> 2"
    using assms(3,4) by (intro dec_digits_at_most_two) simp
  have ld: "length (dec_digits ?d) \<le> 2"
    using assms(5,6) by (intro dec_digits_at_most_two) simp
  have name: "getFileNameByDate r date = spec_rolling_name (m_FileBaseName_R r) ?y ?m ?d"
    using assms(1,3,5) ly
    by (simp add: getFileNameByDate_def file_name_by_date_def spec_rolling_name_def zpad_def
        ostringstream_init_def put_string_def put_char_def put_int_def put_formatted_def
        setw_def setfill_def int_text_def Let_def y m)
  show ?thesis
    using name length_zpad [of ?y 4] length_zpad [OF lm] length_zpad [OF ld] ly by simp
qed

theorem rolling_file_name_by_date_witness:
  "getFileNameByDate (RollingFileLogger_default \<lparr>tm_year = 0, tm_mon = 0, tm_mday = 0\<rparr>)
       \<lparr>tm_year = 124, tm_mon = 1, tm_mday = 1\<rparr> = ''log-2024-02-01''"
  using rolling_file_name_by_date [of "\<lparr>tm_year = 124, tm_mon = 1, tm_mday = 1\<rparr>"
     "RollingFileLogger_default \<lparr>tm_year = 0, tm_mon = 0, tm_mday = 0\<rparr>"]
  by (simp add: spec_rolling_name_def zpad_def RollingFileLogger_default_def
        LOG_DEFAULT_FILE_BASENAME_def dec_digits.simps digit_char_def)

lemma name_jan15: "file_name_by_date ''log'' (tm_of_date 2024 1 15) = ''log-2024-01-15''"
  by (simp add: file_name_by_date_def tm_of_date_def
        ostringstream_init_def put_string_def put_char_def put_int_def put_formatted_def
        setw_def setfill_def int_text_def Let_def dec_digits.simps digit_char_def)

lemma open_jan15:
  "RollingFileLogger_open (env_all_ok (tm_of_date 2024 1 15))
     (RollingFileLogger_default \<lparr>tm_year = 0, tm_mon = 0, tm_mday = 0\<rparr>) world_empty
   = (True,
      \<lparr>m_Level = LOG_LEVEL_INFO, m_MaxFlushNum = 1, m_NotFlushedNum = 0,
       m_FilePath_R = ''/tmp/log'', m_FileBaseName_R = ''log'', m_FileSuffix_R = [],
       m_pFileLogger = Some
         \<lparr>m_Level = LOG_LEVEL_INFO, m_MaxFlushNum = 1, m_NotFlushedNum = 0,
          m_FilePath = ''/tmp/log'', m_FileBaseName = ''log-2024-01-15'', m_FileSuffix = [],
          m_File = \<lparr>is_open = True, fname = ''/tmp/log/log-2024-01-15'', buffer = [],
                     badbit = False, failbit = False\<rparr>,
          m_IsThreadSafe = False\<rparr>,
       m_LastCreatedTime = tm_of_date 2024 1 15\<rparr>,
      \<lparr>paths = {''/tmp/log/log-2024-01-15'', ''/tmp/log''},
       files = [''/tmp/log/log-2024-01-15'' \<mapsto> []],
       stderr_out = [Diag ''Created log directory </tmp/log>'',
                     Diag ''Opened log file </tmp/log/log-2024-01-15>'']\<rparr>)"
  by (simp add: RollingFileLogger_open_def RollingFileLogger_default_def env_all_ok_def
      world_empty_def getCurrentDate_def getFileNameByDate_def name_jan15
      FileLogger_new_def FileLogger_open_def FileLogger_close_def fstream_open_def fstream_init_def
      good_def file_bytes_def LOG_TO_STDERR_def getFullFileName_def compose_full_name_def
      LOG_DEFAULT_FILE_PATH_def LOG_DEFAULT_FILE_BASENAME_def LOG_DEFAULT_FILE_SUFFIX_def
      LOG_DEFAULT_LOGLEVEL_def LOG_DEFAULT_FLUSH_NUM_def Let_def)

section \<open>Rotation of the Rolling sink\<close>

text \<open>
  C1 does not hold of the code: \<^verbatim>\<open>RollingFileLogger::logImpl\<close> compares only
  \<^verbatim>\<open>tm_mday\<close>. A sink opened on 2024-01-15 that next emits on 2024-02-15 performs no
  rotation: \<^verbatim>\<open>m_LastCreatedTime\<close> stays 2024-01-15, the message is appended to
  \<open>/tmp/log/log-2024-01-15\<close>, and no file of 2024-02-15 exists.
\<close>

theorem rotation_compares_day_of_month_only:
  "(case RollingFileLogger_open (env_all_ok (tm_of_date 2024 1 15))
           (RollingFileLogger_default \<lparr>tm_year = 0, tm_mon = 0, tm_mday = 0\<rparr>) world_empty of
      (ok, r, w) \<Rightarrow>
        (case RollingFileLogger_logImpl (env_all_ok (tm_of_date 2024 2 15)) ''x'' r w of
           (res, r', w') \<Rightarrow>
             ok \<and> Rolling_is_open r
             \<and> m_LastCreatedTime r = tm_of_date 2024 1 15
             \<and> res = Inr True
             \<and> m_LastCreatedTime r' = tm_of_date 2024 1 15
             \<and> files w' ''/tmp/log/log-2024-01-15'' = Some ''x''
             \<and> files w' ''/tmp/log/log-2024-02-15'' = None))"
  apply (simp only: open_jan15 prod.case)
  apply (simp add: Rolling_is_open_def RollingFileLogger_logImpl_def env_all_ok_def
      tm_of_date_def getCurrentDate_def scoped_lock_def catch_std_exception_def
      FileLogger_logImpl_def writeLog_def fstream_put_def fstream_flush_def good_def
      file_bytes_def)
  done

text \<open>
  C8. An emit of the Rolling sink that rotates (it passes the level gate, takes the mutex
  and sees another day of the month) and whose rotation fails at open (the directory
  cannot be created, the file cannot be opened, or the filesystem query throws) leaves the
  sink Closed and returns false. Whenever the sink is Closed when an emit returns, that
  emit has returned false; and a Closed sink is Open after an emit only when that emit has
  rotated and its open has succeeded.
\<close>

theorem rolling_rotation_failure:
  assumes "Logger_log e msg level (Rolling_obj r) w = (res, p', w')"
  shows "\<exists>r'. p' = Rolling_obj r'
     \<and> (level_value (m_Level r) \<le> level_value level \<and> lock_throws e = None
          \<and> tm_mday (m_LastCreatedTime r) \<noteq> tm_mday (date_now e)
          \<and> ((m_FilePath_R r \<notin> paths w \<and> \<not> create_ok e (m_FilePath_R r))
               \<or> (\<forall>p. \<not> open_ok e p) \<or> exists_throws e \<noteq> None \<or> \<not> rotation_open_ok e r w)
          \<longrightarrow> \<not> Rolling_is_open r' \<and> res = Inr False)
     \<and> (\<not> Rolling_is_open r' \<longrightarrow> res = Inr False)
     \<and> (\<not> Rolling_is_open r \<and> Rolling_is_open r'
          \<longrightarrow> level_value (m_Level r) \<le> level_value level \<and> lock_throws e = None
              \<and> tm_mday (m_LastCreatedTime r) \<noteq> tm_mday (date_now e)
              \<and> rotation_open_ok e r w)"
proof (cases "level_value level < level_value (m_Level r)")
  case True
  then show ?thesis using assms by (auto simp: Logger_log_def)
next
  case False
  then obtain r' where li: "RollingFileLogger_logImpl e msg r w = (res, r', w')"
    and p': "p' = Rolling_obj r'"
    using assms by (auto simp: Logger_log_def split: prod.splits)
  have lev: "level_value (m_Level r) \<le> level_value level" using False by simp
  have "(lock_throws e = None
          \<and> tm_mday (m_LastCreatedTime r) \<noteq> tm_mday (date_now e)
          \<and> \<not> rotation_open_ok e r w
          \<longrightarrow> \<not> Rolling_is_open r')
     \<and> (\<not> Rolling_is_open r' \<longrightarrow> res = Inr False)
     \<and> (\<not> Rolling_is_open r \<and> Rolling_is_open r'
          \<longrightarrow> lock_throws e = None
              \<and> tm_mday (m_LastCreatedTime r) \<noteq> tm_mday (date_now e)
              \<and> rotation_open_ok e r w)"
    using li
  proof (cases rule: Rolling_logImpl_cases)
    case (locked what)
    then show ?thesis by simp
  next
    case (null r1 w1)
    then show ?thesis
      using rotateFile_fields(1,5) [of e r w r1 w1]
      by (auto simp: Rolling_is_open_def split: if_splits)
  next
    case (inner r1 w1 f f2)
    have op: "Rolling_is_open r' = is_open (m_File f)"
      using inner(5) FileLogger_logImpl_fields(3) [OF inner(4)] by (simp add: Rolling_is_open_def)
    have r1: "Rolling_is_open r1 = is_open (m_File f)"
      using inner(3) by (simp add: Rolling_is_open_def)
    have res: "\<not> is_open (m_File f) \<Longrightarrow> res = Inr False"
      using FileLogger_logImpl_fields(4) [OF inner(4)] .
    show ?thesis
    proof (cases "tm_mday (m_LastCreatedTime r) \<noteq> tm_mday (date_now e)")
      case True
      then have "rotateFile e r w = (r1, w1)" using inner(2) by simp
      then have "Rolling_is_open r1 = rotation_open_ok e r w" by (rule rotateFile_fields(1))
      then show ?thesis using op r1 res True inner(1) by auto
    next
      case False
      then have "r1 = r" using inner(2) by simp
      then show ?thesis using op r1 res False by auto
    qed
  qed
  then show ?thesis using p' lev rotation_open_fails [of r w e] by blast
qed

theorem rolling_rotation_failure_witness:
  "fst (Logger_log ((env_all_ok (tm_of_date 2024 1 16))\<lparr>open_ok := (\<lambda>_. False)\<rparr>) ''x''
          LOG_LEVEL_ERROR
          (Rolling_obj (fst (snd (RollingFileLogger_open (env_all_ok (tm_of_date 2024 1 15))
             (RollingFileLogger_default \<lparr>tm_year = 0, tm_mon = 0, tm_mday = 0\<rparr>) world_empty))))
          (snd (snd (RollingFileLogger_open (env_all_ok (tm_of_date 2024 1 15))
             (RollingFileLogger_default \<lparr>tm_year = 0, tm_mon = 0, tm_mday = 0\<rparr>) world_empty))))
     = Inr False"
proof -
  let ?e = "(env_all_ok (tm_of_date 2024 1 16))\<lparr>open_ok := (\<lambda>_. False)\<rparr>"
  let ?o = "RollingFileLogger_open (env_all_ok (tm_of_date 2024 1 15))
             (RollingFileLogger_default \<lparr>tm_year = 0, tm_mon = 0, tm_mday = 0\<rparr>) world_empty"
  let ?x = "Logger_log ?e ''x'' LOG_LEVEL_ERROR (Rolling_obj (fst (snd ?o))) (snd (snd ?o))"
  have step: "?x = (fst ?x, fst (snd ?x), snd (snd ?x))" by simp
  have hyp: "level_value (m_Level (fst (snd ?o))) \<le> level_value LOG_LEVEL_ERROR
      \<and> lock_throws ?e = None
      \<and> tm_mday (m_LastCreatedTime (fst (snd ?o))) \<noteq> tm_mday (date_now ?e)
      \<and> (\<forall>p. \<not> open_ok ?e p)"
    by (simp only: open_jan15) (simp add: env_all_ok_def tm_of_date_def)
  from rolling_rotation_failure [OF step] hyp show ?thesis by blast
qed

section \<open>The level gate\<close>

text \<open>
  C2. For every sink, message and level below the sink's level, emit returns false and
  changes neither the sink nor the world: no byte reaches standard error or a file, and
  the pending counter keeps its value.
\<close>

theorem emit_below_level:
  assumes "level_value level < level_value (getLevel p)"
  shows "Logger_log e msg level p w = (Inr False, p, w)
         \<and> pending (fst (snd (Logger_log e msg level p w))) = pending p
         \<and> stderr_out (snd (snd (Logger_log e msg level p w))) = stderr_out w
         \<and> files (snd (snd (Logger_log e msg level p w))) = files w"
  using log_below_level [OF assms] by simp

theorem emit_below_level_witness:
  "Logger_log (env_all_ok (tm_of_date 2024 1 31)) ''dbg'' LOG_LEVEL_DEBUG
      (StdErr_obj StdErrLogger_default) world_empty
     = (Inr False, StdErr_obj StdErrLogger_default, world_empty)"
proof -
  have h: "level_value LOG_LEVEL_DEBUG < level_value (getLevel (StdErr_obj StdErrLogger_default))"
    by (simp add: StdErrLogger_default_def LOG_DEFAULT_LOGLEVEL_def)
  show ?thesis using emit_below_level [OF h] by simp
qed

lemma emits_below_level:
  "(\<forall>s \<in> set steps. level_value (snd (snd s)) < level_value (getLevel p)) \<Longrightarrow>
     emits steps p w = (p, w)"
  by (induction steps) (auto simp: log_below_level)

text \<open>
  C10. Emits of the Rolling sink below its level perform no day check and no rotation:
  whatever the dates of their environments, any sequence of them leaves the sink (its
  inner File sink, the open file and \<^verbatim>\<open>m_LastCreatedTime\<close>) and the world unchanged. An
  emit at or above the level that takes the mutex and sees another day of the month does
  rotate: afterwards \<^verbatim>\<open>m_LastCreatedTime\<close> is the current date.
\<close>

theorem rolling_suppressed_emit_never_rotates:
  assumes "\<forall>s \<in> set steps. level_value (snd (snd s)) < level_value (m_Level r)"
  shows "emits steps (Rolling_obj r) w = (Rolling_obj r, w)
     \<and> (lock_throws e = None \<and> tm_mday (m_LastCreatedTime r) \<noteq> tm_mday (date_now e)
          \<longrightarrow> m_LastCreatedTime (fst (snd (RollingFileLogger_logImpl e msg r w))) = date_now e)"
proof -
  have a: "emits steps (Rolling_obj r) w = (Rolling_obj r, w)"
    using emits_below_level [of steps "Rolling_obj r" w] assms by simp
  obtain res r' w' where li: "RollingFileLogger_logImpl e msg r w = (res, r', w')"
    by (cases "RollingFileLogger_logImpl e msg r w") auto
  have "lock_throws e = None \<and> tm_mday (m_LastCreatedTime r) \<noteq> tm_mday (date_now e)
          \<longrightarrow> m_LastCreatedTime r' = date_now e"
    using li
  proof (cases rule: Rolling_logImpl_cases)
    case (locked what)
    then show ?thesis by simp
  next
    case (null r1 w1)
    then show ?thesis using rotateFile_fields(4) [of e r w r1 w1] by (auto split: if_splits)
  next
    case (inner r1 w1 f f2)
    then show ?thesis using rotateFile_fields(4) [of e r w r1 w1] by (auto split: if_splits)
  qed
  then show ?thesis using a li by simp
qed

theorem rolling_suppressed_emit_never_rotates_witness:
  "emits [(env_all_ok (tm_of_date 2024 2 1), ''dbg'', LOG_LEVEL_DEBUG),
          (env_all_ok (tm_of_date 2024 2 2), ''dbg'', LOG_LEVEL_DEBUG)]
     (Rolling_obj (fst (snd (RollingFileLogger_open (env_all_ok (tm_of_date 2024 1 15))
        (RollingFileLogger_default \<lparr>tm_year = 0, tm_mon = 0, tm_mday = 0\<rparr>) world_empty))))
     world_empty
   = (Rolling_obj (fst (snd (RollingFileLogger_open (env_all_ok (tm_of_date 2024 1 15))
        (RollingFileLogger_default \<lparr>tm_year = 0, tm_mon = 0, tm_mday = 0\<rparr>) world_empty))),
      world_empty)"
proof -
  let ?r = "fst (snd (RollingFileLogger_open (env_all_ok (tm_of_date 2024 1 15))
        (RollingFileLogger_default \<lparr>tm_year = 0, tm_mon = 0, tm_mday = 0\<rparr>) world_empty))"
  let ?steps = "[(env_all_ok (tm_of_date 2024 2 1), ''dbg'', LOG_LEVEL_DEBUG),
          (env_all_ok (tm_of_date 2024 2 2), ''dbg'', LOG_LEVEL_DEBUG)]"
  have h: "\<forall>s \<in> set ?steps. level_value (snd (snd s)) < level_value (m_Level ?r)"
    by (simp only: open_jan15) simp
  from rolling_suppressed_emit_never_rotates [OF h] show ?thesis by blast
qed

section \<open>The flush policy\<close>

lemma open_jan15_flush2:
  "RollingFileLogger_open (env_all_ok (tm_of_date 2024 1 15))
     ((RollingFileLogger_default \<lparr>tm_year = 0, tm_mon = 0, tm_mday = 0\<rparr>)
        \<lparr>m_MaxFlushNum := 2\<rparr>) world_empty
   = (True,
      \<lparr>m_Level = LOG_LEVEL_INFO, m_MaxFlushNum = 2, m_NotFlushedNum = 0,
       m_FilePath_R = ''/tmp/log'', m_FileBaseName_R = ''log'', m_FileSuffix_R = [],
       m_pFileLogger = Some
         \<lparr>m_Level = LOG_LEVEL_INFO, m_MaxFlushNum = 2, m_NotFlushedNum = 0,
          m_FilePath = ''/tmp/log'', m_FileBaseName = ''log-2024-01-15'', m_FileSuffix = [],
          m_File = \<lparr>is_open = True, fname = ''/tmp/log/log-2024-01-15'', buffer = [],
                     badbit = False, failbit = False\<rparr>,
          m_IsThreadSafe = False\<rparr>,
       m_LastCreatedTime = tm_of_date 2024 1 15\<rparr>,
      \<lparr>paths = {''/tmp/log/log-2024-01-15'', ''/tmp/log''},
       files = [''/tmp/log/log-2024-01-15'' \<mapsto> []],
       stderr_out = [Diag ''Created log directory </tmp/log>'',
                     Diag ''Opened log file </tmp/log/log-2024-01-15>'']\<rparr>)"
  by (simp add: RollingFileLogger_open_def RollingFileLogger_default_def env_all_ok_def
      world_empty_def getCurrentDate_def getFileNameByDate_def name_jan15
      FileLogger_new_def FileLogger_open_def FileLogger_close_def fstream_open_def fstream_init_def
      good_def file_bytes_def LOG_TO_STDERR_def getFullFileName_def compose_full_name_def
      LOG_DEFAULT_FILE_PATH_def LOG_DEFAULT_FILE_BASENAME_def LOG_DEFAULT_FILE_SUFFIX_def
      LOG_DEFAULT_LOGLEVEL_def Let_def)

text \<open>
  C3. An emit of a File or Rolling sink that writes (it passes the level gate, takes the
  mutex and finds the file open, for the Rolling sink after the rotation if one is due)
  inserts the message into the sink's stream and steps the pending counter by the
  sink's \<open>max_unflushed\<close>: the counter is incremented, and when it reaches
  \<open>max_unflushed\<close> the stream is flushed and the counter reset to 0; the emit returns
  whether the stream is not bad. Consequently, for a sink that was created, configured with
  \<open>max_unflushed \<ge> 1\<close> and opened, the pending counter is at most \<open>max_unflushed - 1\<close>
  after any sequence of emits, and the invariant that the first part needs holds.
\<close>

theorem pending_below_max_unflushed:
  "(flush_policy_ok p \<and> writes e level p w \<longrightarrow>
      (case before_write e p w of
         (p1, w1) \<Rightarrow>
           (case stream_of p1 of
              None \<Rightarrow> False
            | Some s1 \<Rightarrow>
                (case Logger_log e msg level p w of
                   (res, p', w') \<Rightarrow>
                     pending p' = flush_step (max_unflushed p) (pending p1)
                     \<and> (stream_of p', w') =
                         (case fstream_put e msg s1 w1 of
                            (s2, w2) \<Rightarrow>
                              if max_unflushed p \<le> pending p1 + 1
                              then (case fstream_flush e s2 w2 of (s3, w3) \<Rightarrow> (Some s3, w3))
                              else (Some s2, w2))
                     \<and> res = Inr (case stream_of p' of None \<Rightarrow> False | Some s \<Rightarrow> \<not> badbit s)
                     \<and> max_unflushed p' = max_unflushed p \<and> flush_policy_ok p'))))
   \<and> (createLoggerInterface u type = Inr q0 \<and> config conf q0 v0 = (b0, q1, v1)
        \<and> 1 \<le> max_unflushed q1 \<and> open_logger e0 q1 v1 = (ok, q2, v2)
        \<and> emits steps q2 v2 = (q3, v3)
       \<longrightarrow> flush_policy_ok q3 \<and> pending q3 \<le> max_unflushed q3 - 1
           \<and> max_unflushed q3 = max_unflushed q1)"
proof (intro conjI impI)
  assume h: "flush_policy_ok p \<and> writes e level p w"
  obtain res p' w' where lg: "Logger_log e msg level p w = (res, p', w')"
    by (cases "Logger_log e msg level p w") auto
  have inv': "flush_policy_ok p' \<and> max_unflushed p' = max_unflushed p"
    using log_flush_policy [OF _ lg] h by blast
  have lev: "level_value (getLevel p) \<le> level_value level" using h by (simp add: writes_def)
  then have li: "logImpl e msg p w = (res, p', w')" using lg by (simp add: Logger_log_def)
  show "case before_write e p w of
         (p1, w1) \<Rightarrow>
           (case stream_of p1 of
              None \<Rightarrow> False
            | Some s1 \<Rightarrow>
                (case Logger_log e msg level p w of
                   (res, p', w') \<Rightarrow>
                     pending p' = flush_step (max_unflushed p) (pending p1)
                     \<and> (stream_of p', w') =
                         (case fstream_put e msg s1 w1 of
                            (s2, w2) \<Rightarrow>
                              if max_unflushed p \<le> pending p1 + 1
                              then (case fstream_flush e s2 w2 of (s3, w3) \<Rightarrow> (Some s3, w3))
                              else (Some s2, w2))
                     \<and> res = Inr (case stream_of p' of None \<Rightarrow> False | Some s \<Rightarrow> \<not> badbit s)
                     \<and> max_unflushed p' = max_unflushed p \<and> flush_policy_ok p'))"
  proof (cases p)
    case (StdErr_obj l)
    then show ?thesis using h by (simp add: writes_def)
  next
    case (File_obj f)
    obtain f' where f': "FileLogger_logImpl e msg f w = (res, f', w')" "p' = File_obj f'"
      using li File_obj by (auto split: prod.splits)
    have op: "is_open (m_File f)" and lk: "lock_throws e = None \<or> \<not> m_IsThreadSafe f"
      using h File_obj by (auto simp: writes_def split: if_splits)
    show ?thesis
      using FileLogger_logImpl_write [OF op lk f'(1)] f'(2) File_obj lg inv' by auto
  next
    case (Rolling_obj r)
    obtain r' where r': "RollingFileLogger_logImpl e msg r w = (res, r', w')" "p' = Rolling_obj r'"
      using li Rolling_obj by (auto split: prod.splits)
    have lk: "lock_throws e = None" using h Rolling_obj by (simp add: writes_def)
    from r'(1) show ?thesis
    proof (cases rule: Rolling_logImpl_cases)
      case (locked what)
      then show ?thesis using lk by simp
    next
      case (null r1 w1)
      have "before_write e p w = (Rolling_obj r1, w1)"
        using null(2) Rolling_obj by (auto simp: rotates_def split: if_splits prod.splits)
      then show ?thesis using h null(3) by (simp add: writes_def)
    next
      case (inner r1 w1 f f2)
      have bw: "before_write e p w = (Rolling_obj r1, w1)"
        using inner(2) Rolling_obj by (auto simp: rotates_def split: if_splits prod.splits)
      have op: "is_open (m_File f)" using h bw inner(3) by (simp add: writes_def)
      have mx: "m_MaxFlushNum f = m_MaxFlushNum r"
      proof (cases "tm_mday (m_LastCreatedTime r) \<noteq> tm_mday (date_now e)")
        case True
        then have "rotateFile e r w = (r1, w1)" using inner(2) by simp
        then show ?thesis using rotateFile_fields(5) inner(3) by fastforce
      next
        case False
        then show ?thesis using inner(2,3) h Rolling_obj by auto
      qed
      show ?thesis
        unfolding bw
        using FileLogger_logImpl_write [OF op disjI1 [OF lk] inner(4)] inner(3,5) r'(2) mx
          Rolling_obj lg inv'
        by auto
    qed
  qed
next
  assume h: "createLoggerInterface u type = Inr q0 \<and> config conf q0 v0 = (b0, q1, v1)
        \<and> 1 \<le> max_unflushed q1 \<and> open_logger e0 q1 v1 = (ok, q2, v2)
        \<and> emits steps q2 v2 = (q3, v3)"
  have zero: "(case q1 of StdErr_obj l \<Rightarrow> m_NotFlushedNum l | File_obj f \<Rightarrow> m_NotFlushedNum f
          | Rolling_obj r \<Rightarrow> m_NotFlushedNum r) = 0"
    using h created_configured_counter by blast
  have q2: "flush_policy_ok q2 \<and> max_unflushed q2 = max_unflushed q1"
    using open_flush_policy [OF _ zero] h by blast
  have q3: "flush_policy_ok q3 \<and> max_unflushed q3 = max_unflushed q2"
    using emits_flush_policy [of q2 steps v2 q3 v3] q2 h by blast
  show "flush_policy_ok q3" using q3 by simp
  show "pending q3 \<le> max_unflushed q3 - 1" using q3 flush_policy_bound by blast
  show "max_unflushed q3 = max_unflushed q1" using q2 q3 by simp
qed

lemma rotate_jan16_flush2:
  "rotateFile (env_all_ok (tm_of_date 2024 1 16))
     (fst (snd (RollingFileLogger_open (env_all_ok (tm_of_date 2024 1 15))
        ((RollingFileLogger_default \<lparr>tm_year = 0, tm_mon = 0, tm_mday = 0\<rparr>)
           \<lparr>m_MaxFlushNum := 2\<rparr>) world_empty)))
     (snd (snd (RollingFileLogger_open (env_all_ok (tm_of_date 2024 1 15))
        ((RollingFileLogger_default \<lparr>tm_year = 0, tm_mon = 0, tm_mday = 0\<rparr>)
           \<lparr>m_MaxFlushNum := 2\<rparr>) world_empty)))
   = (\<lparr>m_Level = LOG_LEVEL_INFO, m_MaxFlushNum = 2, m_NotFlushedNum = 0,
       m_FilePath_R = ''/tmp/log'', m_FileBaseName_R = ''log'', m_FileSuffix_R = [],
       m_pFileLogger = Some
         \<lparr>m_Level = LOG_LEVEL_INFO, m_MaxFlushNum = 2, m_NotFlushedNum = 0,
          m_FilePath = ''/tmp/log'', m_FileBaseName = ''log-2024-01-16'', m_FileSuffix = [],
          m_File = \<lparr>is_open = True, fname = ''/tmp/log/log-2024-01-16'', buffer = [],
                     badbit = False, failbit = False\<rparr>,
          m_IsThreadSafe = False\<rparr>,
       m_LastCreatedTime = tm_of_date 2024 1 16\<rparr>,
      \<lparr>paths = {''/tmp/log/log-2024-01-16'', ''/tmp/log/log-2024-01-15'', ''/tmp/log''},
       files = [''/tmp/log/log-2024-01-15'' \<mapsto> [], ''/tmp/log/log-2024-01-16'' \<mapsto> []],
       stderr_out = [Diag ''Created log directory </tmp/log>'',
                     Diag ''Opened log file </tmp/log/log-2024-01-15>'',
                     Diag ''Opened log file </tmp/log/log-2024-01-16>'']\<rparr>)"
proof -
  have name: "file_name_by_date ''log'' (tm_of_date 2024 1 16) = ''log-2024-01-16''"
    by (simp add: file_name_by_date_def tm_of_date_def
        ostringstream_init_def put_string_def put_char_def put_int_def put_formatted_def
        setw_def setfill_def int_text_def Let_def dec_digits.simps digit_char_def)
  show ?thesis
    apply (simp only: open_jan15_flush2 fst_conv snd_conv)
    apply (simp add: rotateFile_def RollingFileLogger_close_def RollingFileLogger_open_def
        env_all_ok_def getCurrentDate_def getFileNameByDate_def name
        FileLogger_new_def FileLogger_open_def FileLogger_close_def fstream_open_def
        fstream_init_def fstream_flush_def fstream_close_def
        good_def file_bytes_def LOG_TO_STDERR_def getFullFileName_def compose_full_name_def
        Let_def)
    done
qed

theorem pending_below_max_unflushed_witness:
  "pending (fst (snd (Logger_log (env_all_ok (tm_of_date 2024 1 16)) ''a'' LOG_LEVEL_INFO
     (Rolling_obj (fst (snd (RollingFileLogger_open (env_all_ok (tm_of_date 2024 1 15))
        ((RollingFileLogger_default \<lparr>tm_year = 0, tm_mon = 0, tm_mday = 0\<rparr>)
           \<lparr>m_MaxFlushNum := 2\<rparr>) world_empty))))
     (snd (snd (RollingFileLogger_open (env_all_ok (tm_of_date 2024 1 15))
        ((RollingFileLogger_default \<lparr>tm_year = 0, tm_mon = 0, tm_mday = 0\<rparr>)
           \<lparr>m_MaxFlushNum := 2\<rparr>) world_empty)))))) = 1"
proof -
  let ?e = "env_all_ok (tm_of_date 2024 1 16)"
  let ?o = "RollingFileLogger_open (env_all_ok (tm_of_date 2024 1 15))
        ((RollingFileLogger_default \<lparr>tm_year = 0, tm_mon = 0, tm_mday = 0\<rparr>)
           \<lparr>m_MaxFlushNum := 2\<rparr>) world_empty"
  let ?p = "Rolling_obj (fst (snd ?o))"
  let ?w = "snd (snd ?o)"
  have rot: "rotates ?e (fst (snd ?o))"
    by (simp only: open_jan15_flush2) (simp add: rotates_def env_all_ok_def tm_of_date_def)
  have inv: "flush_policy_ok ?p"
    by (simp only: open_jan15_flush2) simp
  have mx: "max_unflushed ?p = 2"
    by (simp only: open_jan15_flush2) simp
  have bw: "before_write ?e ?p ?w = (Rolling_obj (fst (rotateFile ?e (fst (snd ?o)) ?w)),
      snd (rotateFile ?e (fst (snd ?o)) ?w))"
    using rot by (simp add: split_beta)
  have wr: "writes ?e LOG_LEVEL_INFO ?p ?w"
    unfolding writes_def bw
    by (simp only: rotate_jan16_flush2, simp only: open_jan15_flush2, simp add: env_all_ok_def)
  have "pending (fst (snd (Logger_log ?e ''a'' LOG_LEVEL_INFO ?p ?w)))
          = flush_step (max_unflushed ?p) (pending (fst (before_write ?e ?p ?w)))"
    using pending_below_max_unflushed [THEN conjunct1, rule_format, OF conjI [OF inv wr],
        of "''a''"]
    by (simp add: split_beta split: option.splits)
  also have "\<dots> = flush_step 2 0"
    unfolding bw mx by (simp only: rotate_jan16_flush2) simp
  also have "\<dots> = 1" by (simp add: flush_step_def word_le_nat_alt)
  finally show ?thesis .
qed

section \<open>Errors of the File sink\<close>

text \<open>
  C9. An emit of the File sink never lets an exception reach its caller: it returns a
  boolean. It returns false when no file is open, when taking the mutex throws (the
  exception is caught and reported on standard error), when the insertion into the
  stream fails, and when the flush that is due fails.
\<close>

theorem file_emit_never_throws:
  "(\<exists>b f' w'. Logger_log e msg level (File_obj f) w = (Inr b, File_obj f', w'))
   \<and> (\<not> is_open (m_File f) \<longrightarrow> fst (Logger_log e msg level (File_obj f) w) = Inr False)
   \<and> (level_value (m_Level f) \<le> level_value level \<and> m_IsThreadSafe f
        \<and> lock_throws e = Some what
      \<longrightarrow> Logger_log e msg level (File_obj f) w
            = (Inr False, File_obj f, LOG_TO_STDERR (''Exception: '' @ what) w))
   \<and> (is_open (m_File f) \<and> \<not> failbit (m_File f) \<and> \<not> write_ok e (fname (m_File f))
      \<longrightarrow> fst (Logger_log e msg level (File_obj f) w) = Inr False)
   \<and> (is_open (m_File f) \<and> m_MaxFlushNum f \<le> m_NotFlushedNum f + 1
        \<and> \<not> flush_ok e (fname (m_File f))
      \<longrightarrow> fst (Logger_log e msg level (File_obj f) w) = Inr False)"
proof (intro conjI impI)
  show "\<exists>b f' w'. Logger_log e msg level (File_obj f) w = (Inr b, File_obj f', w')"
    by (auto simp: Logger_log_def FileLogger_logImpl_def catch_std_exception_def
        scoped_lock_def split: option.splits prod.splits)
next
  assume "\<not> is_open (m_File f)"
  then show "fst (Logger_log e msg level (File_obj f) w) = Inr False"
    by (auto simp: Logger_log_def FileLogger_logImpl_def catch_std_exception_def
        scoped_lock_def writeLog_def split: option.splits prod.splits)
next
  assume "level_value (m_Level f) \<le> level_value level \<and> m_IsThreadSafe f
        \<and> lock_throws e = Some what"
  then show "Logger_log e msg level (File_obj f) w
            = (Inr False, File_obj f, LOG_TO_STDERR (''Exception: '' @ what) w)"
    by (simp add: Logger_log_def FileLogger_logImpl_def catch_std_exception_def
        scoped_lock_def)
next
  assume "is_open (m_File f) \<and> \<not> failbit (m_File f) \<and> \<not> write_ok e (fname (m_File f))"
  then show "fst (Logger_log e msg level (File_obj f) w) = Inr False"
    by (auto simp: Logger_log_def FileLogger_logImpl_def catch_std_exception_def
        scoped_lock_def writeLog_def fstream_put_def fstream_flush_def good_def Let_def
        split: option.splits prod.splits)
next
  assume "is_open (m_File f) \<and> m_MaxFlushNum f \<le> m_NotFlushedNum f + 1
        \<and> \<not> flush_ok e (fname (m_File f))"
  then show "fst (Logger_log e msg level (File_obj f) w) = Inr False"
    by (auto simp: Logger_log_def FileLogger_logImpl_def catch_std_exception_def
        scoped_lock_def writeLog_def fstream_put_def fstream_flush_def good_def Let_def
        split: option.splits prod.splits)
qed

theorem file_emit_never_throws_witness:
  "fst (Logger_log (env_all_ok (tm_of_date 2024 1 31)) ''x'' LOG_LEVEL_ERROR
          (File_obj FileLogger_default) world_empty) = Inr False
   \<and> Logger_log ((env_all_ok (tm_of_date 2024 1 31))\<lparr>lock_throws := Some ''lock''\<rparr>) ''x''
          LOG_LEVEL_ERROR (File_obj FileLogger_default) world_empty
       = (Inr False, File_obj FileLogger_default,
          LOG_TO_STDERR ''Exception: lock'' world_empty)"
proof -
  have h1: "\<not> is_open (m_File FileLogger_default)"
    by (simp add: FileLogger_default_def fstream_init_def)
  have h2: "level_value (m_Level FileLogger_default) \<le> level_value LOG_LEVEL_ERROR
      \<and> m_IsThreadSafe FileLogger_default
      \<and> lock_throws ((env_all_ok (tm_of_date 2024 1 31))\<lparr>lock_throws := Some ''lock''\<rparr>)
          = Some ''lock''"
    by (simp add: FileLogger_default_def LOG_DEFAULT_LOGLEVEL_def)
  show ?thesis
    using file_emit_never_throws [of "env_all_ok (tm_of_date 2024 1 31)" "''x''" LOG_LEVEL_ERROR
        FileLogger_default world_empty] h1
      file_emit_never_throws [of "(env_all_ok (tm_of_date 2024 1 31))\<lparr>lock_throws := Some ''lock''\<rparr>"
        "''x''" LOG_LEVEL_ERROR FileLogger_default world_empty "''lock''"] h2
    by simp
qed

section \<open>Initialization\<close>

text \<open>
  C6. When the singleton exists, \<^verbatim>\<open>initialize\<close> returns true and changes nothing: the
  singleton with its sink stays as it is, and the world too (no configuration is read, no
  diagnostic is written). So after a successful \<^verbatim>\<open>initialize\<close>, a second one, with any
  configuration path and in any environment, returns true and leaves the state of the
  first.
\<close>

theorem init_idempotent:
  "initialize e config_file (Some sys) w = (Inr True, Some sys, w)
   \<and> (initialize e0 config_file0 s0 w0 = (Inr True, s1, w1)
        \<longrightarrow> initialize e config_file s1 w1 = (Inr True, s1, w1))"
proof (intro conjI impI)
  show a: "initialize e config_file (Some sys) w = (Inr True, Some sys, w)" for sys w
    by (simp add: initialize_def catch_std_exception_def)
  assume "initialize e0 config_file0 s0 w0 = (Inr True, s1, w1)"
  then have "\<exists>sys. s1 = Some sys"
    by (auto simp: initialize_def catch_std_exception_def
        split: option.splits sum.splits prod.splits exn.splits)
  then show "initialize e config_file s1 w1 = (Inr True, s1, w1)"
    using a by auto
qed

lemma init_stderr_defaults:
  "initialize (env_all_ok (tm_of_date 2024 1 31)) [] None world_empty
   = (Inr True,
      Some \<lparr>m_LogConfig = LogConfig_empty, m_pLogger = Some (StdErr_obj StdErrLogger_default)\<rparr>,
      \<lparr>paths = {}, files = Map.empty,
       stderr_out = [Diag ''No log cofig file specified, log to stderr!'',
                     Diag ''Log level: INFO'', Diag ''Log system initialized OK!'']\<rparr>)"
  by (simp add: initialize_def catch_std_exception_def LogSys_new_def LogConfig_empty_def
      getUnsigned_def createLoggerInterface_def TO_STDERR_def Logger_config_def
      StdErrLogger_default_def LOG_DEFAULT_LOGLEVEL_def LOG_DEFAULT_FLUSH_NUM_def
      LOG_TO_STDERR_def world_empty_def env_all_ok_def Let_def)

theorem init_idempotent_witness:
  "initialize (env_all_ok (tm_of_date 2024 2 1)) ''/etc/log.conf''
     (Some \<lparr>m_LogConfig = LogConfig_empty, m_pLogger = Some (StdErr_obj StdErrLogger_default)\<rparr>)
     \<lparr>paths = {}, files = Map.empty,
       stderr_out = [Diag ''No log cofig file specified, log to stderr!'',
                     Diag ''Log level: INFO'', Diag ''Log system initialized OK!'']\<rparr>
   = (Inr True,
      Some \<lparr>m_LogConfig = LogConfig_empty, m_pLogger = Some (StdErr_obj StdErrLogger_default)\<rparr>,
      \<lparr>paths = {}, files = Map.empty,
       stderr_out = [Diag ''No log cofig file specified, log to stderr!'',
                     Diag ''Log level: INFO'', Diag ''Log system initialized OK!'']\<rparr>)"
  using init_idempotent [THEN conjunct2, rule_format, OF init_stderr_defaults] .

lemma LogSys_new_throws_std:
  "LogSys_new e cf w = (Inl x, w1) \<Longrightarrow> \<exists>what. x = std_exception what"
  by (auto simp: LogSys_new_def Let_def createLoggerInterface_def
      split: if_splits option.splits prod.splits sum.splits)

lemma initialize_None:
  "initialize e cf None w =
     (case LogSys_new e cf w of
        (Inl (std_exception what), w1) \<Rightarrow> (Inr False, None, LOG_TO_STDERR (''Exception: '' @ what) w1)
      | (Inl non_std_exception, w1) \<Rightarrow> (Inl non_std_exception, None, w1)
      | (Inr sys, w1) \<Rightarrow> (Inr True, Some sys, w1))"
  by (simp add: initialize_def catch_std_exception_def split: prod.splits sum.splits exn.splits)

lemma open_logger_fails:
  assumes "\<forall>p. \<not> open_ok e p" and "\<forall>l. p \<noteq> StdErr_obj l"
  shows "\<not> fst (open_logger e p w)"
proof (cases p)
  case (StdErr_obj l)
  then show ?thesis using assms(2) by simp
next
  case (File_obj f)
  then show ?thesis using FileLogger_open_fails [of f w e] assms(1) by (auto split: prod.splits)
next
  case (Rolling_obj r)
  let ?r1 = "r\<lparr>m_LastCreatedTime := getCurrentDate e\<rparr>"
  let ?fresh = "FileLogger_new (m_FilePath_R ?r1) (getFileNameByDate ?r1 (m_LastCreatedTime ?r1))
                  (m_FileSuffix_R ?r1) (m_Level ?r1) (m_MaxFlushNum ?r1) False"
  let ?w1 = "case m_pFileLogger ?r1 of None \<Rightarrow> w
             | Some old \<Rightarrow> snd (snd (FileLogger_close e old w))"
  have "fst (RollingFileLogger_open e r w) = fst (FileLogger_open e ?fresh ?w1)"
    by (simp add: RollingFileLogger_open_def Let_def split: prod.splits)
  moreover have "\<not> fst (FileLogger_open e ?fresh ?w1)"
    using assms(1) by (intro FileLogger_open_fails) simp
  ultimately show ?thesis
    using Rolling_obj by (auto split: prod.splits)
qed

text \<open>
  What holds of a failing \<^verbatim>\<open>initialize\<close>: it returns a boolean, and when it returns
  false no singleton is installed. It returns false when the configuration file cannot be
  parsed and when the File or Rolling sink cannot open its file. A \<^verbatim>\<open>LOG_OUT\<close> without
  a singleton does nothing.
\<close>

lemma init_failure_no_singleton:
  "(\<exists>b. fst (initialize e cf s w) = Inr b)
   \<and> (fst (initialize e cf s w) = Inr False \<longrightarrow> fst (snd (initialize e cf s w)) = None)
   \<and> (cf \<noteq> [] \<and> parse_config e cf = None \<longrightarrow> fst (initialize e cf None w) = Inr False)
   \<and> (cf \<noteq> [] \<and> parse_config e cf = Some conf
        \<and> cfg_unsigned conf TEXT_LOG_DESTINATION = Some d
        \<and> (ucast d :: ENUM_LOG_TYPE) \<in> {TO_FILE, TO_ROLLING_FILE} \<and> (\<forall>p. \<not> open_ok e p)
      \<longrightarrow> fst (initialize e cf None w) = Inr False)
   \<and> LOG_OUT e msg level None w = (None, None, w)"
proof (intro conjI impI)
  show "\<exists>b. fst (initialize e cf s w) = Inr b"
  proof (cases s)
    case None
    obtain r w1 where n: "LogSys_new e cf w = (r, w1)" by (cases "LogSys_new e cf w") auto
    show ?thesis
      using None n LogSys_new_throws_std [of e cf w _ w1]
      by (cases r) (auto simp: initialize_None)
  next
    case (Some sys)
    then show ?thesis by (auto simp: initialize_def catch_std_exception_def)
  qed
next
  assume "fst (initialize e cf s w) = Inr False"
  then show "fst (snd (initialize e cf s w)) = None"
    by (cases s)
      (auto simp: initialize_def catch_std_exception_def
        split: prod.splits sum.splits exn.splits)
next
  assume "cf \<noteq> [] \<and> parse_config e cf = None"
  then show "fst (initialize e cf None w) = Inr False"
    by (simp add: initialize_None LogSys_new_def)
next
  assume h: "cf \<noteq> [] \<and> parse_config e cf = Some conf
        \<and> cfg_unsigned conf TEXT_LOG_DESTINATION = Some d
        \<and> (ucast d :: ENUM_LOG_TYPE) \<in> {TO_FILE, TO_ROLLING_FILE} \<and> (\<forall>p. \<not> open_ok e p)"
  let ?w1 = "LOG_TO_STDERR (''Opening file <'' @ cf @ ''> to get log config...'') w"
  obtain p where p: "createLoggerInterface (uninitialized_tm e) (ucast d) = Inr p"
      "\<forall>l. p \<noteq> StdErr_obj l"
    using h by (auto simp: createLoggerInterface_def TO_FILE_def TO_ROLLING_FILE_def TO_STDERR_def)
  obtain b p2 w2 where c: "config conf p ?w1 = (b, p2, w2)"
    by (cases "config conf p ?w1") auto
  have "\<forall>l. p2 \<noteq> StdErr_obj l"
    using c p(2) by (cases p) (auto split: prod.splits)
  then have "\<not> fst (open_logger e p2 w2)" using h open_logger_fails by blast
  then show "fst (initialize e cf None w) = Inr False"
    using h p(1) c
    by (auto simp: initialize_None LogSys_new_def getUnsigned_def Let_def split: prod.splits)
next
  show "LOG_OUT e msg level None w = (None, None, w)" by (simp add: LOG_OUT_def)
qed

text \<open>
  C7 does not hold of the code for every unrecognized \<open>log_dest\<close>: the cast
  \<^verbatim>\<open>ENUM_LOG_TYPE(desti)\<close> keeps the low 32 bits of the \<^verbatim>\<open>unsigned long\<close>, so the
  value 4294967296, which is none of the three destinations, reaches
  \<^verbatim>\<open>createLoggerInterface\<close> as \<^verbatim>\<open>TO_STDERR\<close>. With a configuration file that sets
  \<open>log_dest\<close> to it, \<^verbatim>\<open>initialize\<close> returns true and installs a singleton with a
  Stderr sink, where it should fail and install none.
\<close>

theorem init_accepts_log_dest_beyond_32_bits:
  "initialize
     ((env_all_ok (tm_of_date 2024 1 31))
        \<lparr>parse_config :=
           (\<lambda>_. Some \<lparr>cfg_unsigned = [''log_dest'' \<mapsto> 4294967296], cfg_string = Map.empty\<rparr>)\<rparr>)
     ''/etc/log.conf'' None world_empty
   = (Inr True,
      Some \<lparr>m_LogConfig =
              \<lparr>cfg_unsigned = [''log_dest'' \<mapsto> 4294967296], cfg_string = Map.empty\<rparr>,
            m_pLogger = Some (StdErr_obj StdErrLogger_default)\<rparr>,
      \<lparr>paths = {}, files = Map.empty,
       stderr_out = [Diag ''Opening file </etc/log.conf> to get log config...'',
                     Diag ''Log level: INFO'', Diag ''Log system initialized OK!'']\<rparr>)"
  by (simp add: initialize_def catch_std_exception_def LogSys_new_def
      getUnsigned_def createLoggerInterface_def TO_STDERR_def TEXT_LOG_DESTINATION_def
      TEXT_LOG_LEVEL_def TEXT_LOG_FLUSH_NUM_def Logger_config_def
      StdErrLogger_default_def LOG_DEFAULT_LOGLEVEL_def LOG_DEFAULT_FLUSH_NUM_def
      LOG_TO_STDERR_def world_empty_def env_all_ok_def Let_def)

end
